theory Spec2Isabelle
  imports Main "HOL-Library.Sublist" "HOL-Library.Multiset"
begin

section \<open>Python strings\<close>

text \<open>
  A Python \<open>str\<close> is a sequence of code points. The model uses \<open>string\<close>, whose
  characters are the code points U+0000 to U+00FF; \<open>length\<close> is then Python's
  \<open>len\<close>. The character classes below are Python's \<open>str.isspace\<close> and
  \<open>str.isalnum\<close> on that range.
\<close>

definition isspace :: "char \<Rightarrow> bool" where
  "isspace c =
     (let n = (of_char c :: nat)
      in (9 \<le> n \<and> n \<le> 13) \<or> (28 \<le> n \<and> n \<le> 32) \<or> n = 133 \<or> n = 160)"

definition isalnum :: "char \<Rightarrow> bool" where
  "isalnum c =
     (let n = (of_char c :: nat)
      in (48 \<le> n \<and> n \<le> 57) \<or> (65 \<le> n \<and> n \<le> 90) \<or> (97 \<le> n \<and> n \<le> 122)
         \<or> n = 170 \<or> n = 178 \<or> n = 179 \<or> n = 181 \<or> n = 185 \<or> n = 186
         \<or> (188 \<le> n \<and> n \<le> 190) \<or> (192 \<le> n \<and> n \<le> 214)
         \<or> (216 \<le> n \<and> n \<le> 246) \<or> (248 \<le> n \<and> n \<le> 255))"

text \<open>\<open>str.strip()\<close> with no argument: drop the whitespace at both ends.\<close>

definition lstrip :: "string \<Rightarrow> string" where
  "lstrip s = dropWhile isspace s"

definition rstrip :: "string \<Rightarrow> string" where
  "rstrip s = rev (dropWhile isspace (rev s))"

definition strip :: "string \<Rightarrow> string" where
  "strip s = rstrip (lstrip s)"

text \<open>Truthiness of an optional string: \<open>None\<close> and \<open>""\<close> are false.\<close>

fun truthy :: "string option \<Rightarrow> bool" where
  "truthy None = False"
| "truthy (Some s) = (s \<noteq> [])"

section \<open>Field validators (validations.py, class TaskValidator)\<close>

definition title_required :: string where
  "title_required = ''Task title is required.''"

definition title_too_short :: string where
  "title_too_short = ''Task title must be at least 3 characters long.''"

definition title_too_long :: string where
  "title_too_long = ''Task title cannot exceed 200 characters.''"

definition title_invalid_chars :: string where
  "title_invalid_chars = ''Task title contains invalid characters.''"

text \<open>The punctuation literal of \<open>validate_title\<close>; the last two are \<open>"\<close> and \<open>'\<close>.\<close>

definition title_punct :: string where
  "title_punct = ''.,!?-_()[]{}:;'' @ [CHR 0x22, CHR 0x27]"

definition title_char_ok :: "char \<Rightarrow> bool" where
  "title_char_ok c = (isalnum c \<or> isspace c \<or> c \<in> set title_punct)"

definition validate_title :: "string option \<Rightarrow> bool \<times> string list" where
  "validate_title title =
     (if \<not> truthy title then (False, [title_required])
      else
        let t = strip (the title);
            e1 = (if length t < 3 then [title_too_short] else []);
            e2 = e1 @ (if length t > 200 then [title_too_long] else []);
            e3 = e2 @ (if \<not> list_all title_char_ok t then [title_invalid_chars] else [])
        in (e3 = [], e3))"

definition desc_too_long :: string where
  "desc_too_long = ''Description cannot exceed 1000 characters.''"

definition validate_description :: "string option \<Rightarrow> bool \<times> string list" where
  "validate_description description =
     (let errors =
        (if truthy description
         then (if length (strip (the description)) > 1000 then [desc_too_long] else [])
         else [])
      in (errors = [], errors))"

definition priority_invalid :: string where
  "priority_invalid = ''Invalid priority. Must be one of: Low, Medium, High.''"

definition validate_priority :: "string option \<Rightarrow> bool \<times> string list" where
  "validate_priority priority =
     (let errors =
        (if truthy priority \<and> the priority \<notin> set [''Low'', ''Medium'', ''High'']
         then [priority_invalid] else [])
      in (errors = [], errors))"

section \<open>Calendar dates (Python's datetime.date)\<close>

record date =
  year :: nat
  month :: nat
  day :: nat

definition is_leap :: "nat \<Rightarrow> bool" where
  "is_leap y = (y mod 4 = 0 \<and> (y mod 100 \<noteq> 0 \<or> y mod 400 = 0))"

definition days_in_month :: "nat \<Rightarrow> nat \<Rightarrow> nat" where
  "days_in_month y m =
     (if m = 2 then (if is_leap y then 29 else 28)
      else if m = 4 \<or> m = 6 \<or> m = 9 \<or> m = 11 then 30 else 31)"

text \<open>
  The constructor \<open>datetime(y, m, d)\<close> raises \<open>ValueError\<close> unless the year is in
  1..9999, the month in 1..12 and the day in 1..days of that month; \<open>None\<close> is the
  \<open>ValueError\<close>.
\<close>

definition mk_date :: "nat \<Rightarrow> nat \<Rightarrow> nat \<Rightarrow> date option" where
  "mk_date y m d =
     (if 1 \<le> y \<and> y \<le> 9999 \<and> 1 \<le> m \<and> m \<le> 12 \<and> 1 \<le> d \<and> d \<le> days_in_month y m
      then Some \<lparr>year = y, month = m, day = d\<rparr> else None)"

text \<open>Dates compare as the triples (year, month, day).\<close>

definition date_less :: "date \<Rightarrow> date \<Rightarrow> bool" where
  "date_less a b =
     (year a < year b \<or> (year a = year b \<and>
        (month a < month b \<or> (month a = month b \<and> day a < day b))))"

text \<open>\<open>date.toordinal\<close>: day 1 is 0001-01-01; \<open>a - b\<close> is the difference of ordinals.\<close>

definition days_before_year :: "nat \<Rightarrow> nat" where
  "days_before_year y =
     (let y1 = y - 1 in y1 * 365 + y1 div 4 - y1 div 100 + y1 div 400)"

definition days_before_month :: "nat \<Rightarrow> nat \<Rightarrow> nat" where
  "days_before_month y m =
     [0, 0, 31, 59, 90, 120, 151, 181, 212, 243, 273, 304, 334] ! m
     + (if m > 2 \<and> is_leap y then 1 else 0)"

definition toordinal :: "date \<Rightarrow> nat" where
  "toordinal d = days_before_year (year d) + days_before_month (year d) (month d) + day d"

definition days_between :: "date \<Rightarrow> date \<Rightarrow> int" where
  "days_between a b = int (toordinal a) - int (toordinal b)"

text \<open>
  \<open>datetime.strptime(s, '%Y-%m-%d').date()\<close>. CPython matches the text against
  \<open>(\d\d\d\d)-(1[0-2]|0[1-9]|[1-9])-(3[0-1]|[1-2]\d|0[1-9]|[1-9]| [1-9])\<close> from the
  start, refuses text left over after the match, and builds the date, which checks the
  calendar. Each group takes its first alternative that matches; a later alternative of
  the month never succeeds where an earlier one matched, because the dash must follow.
  In the character range of the model \<open>\d\<close> is an ASCII digit.
\<close>

definition isdigit :: "char \<Rightarrow> bool" where
  "isdigit c = (c \<in> set ''0123456789'')"

definition digit_val :: "char \<Rightarrow> nat" where
  "digit_val c = of_char c - 48"

fun match_month :: "string \<Rightarrow> (nat \<times> string) option" where
  "match_month (a # b # r) =
     (if a = CHR ''1'' \<and> b \<in> set ''012'' then Some (10 + digit_val b, r)
      else if a = CHR ''0'' \<and> b \<in> set ''123456789'' then Some (digit_val b, r)
      else if a \<in> set ''123456789'' then Some (digit_val a, b # r)
      else None)"
| "match_month [a] = (if a \<in> set ''123456789'' then Some (digit_val a, []) else None)"
| "match_month [] = None"

fun match_day :: "string \<Rightarrow> (nat \<times> string) option" where
  "match_day (a # b # r) =
     (if a = CHR ''3'' \<and> b \<in> set ''01'' then Some (30 + digit_val b, r)
      else if a \<in> set ''12'' \<and> isdigit b then Some (10 * digit_val a + digit_val b, r)
      else if a = CHR ''0'' \<and> b \<in> set ''123456789'' then Some (digit_val b, r)
      else if a \<in> set ''123456789'' then Some (digit_val a, b # r)
      else if a = CHR '' '' \<and> b \<in> set ''123456789'' then Some (digit_val b, r)
      else None)"
| "match_day [a] = (if a \<in> set ''123456789'' then Some (digit_val a, []) else None)"
| "match_day [] = None"

fun strptime_ymd :: "string \<Rightarrow> date option" where
  "strptime_ymd (y1 # y2 # y3 # y4 # dash # rest) =
     (if list_all isdigit [y1, y2, y3, y4] \<and> dash = CHR ''-''
      then
        (case match_month rest of
           None \<Rightarrow> None
         | Some (m, r1) \<Rightarrow>
             (case r1 of
                [] \<Rightarrow> None
              | dash2 # r2 \<Rightarrow>
                  if dash2 \<noteq> CHR ''-'' then None
                  else
                    (case match_day r2 of
                       None \<Rightarrow> None
                     | Some (d, r3) \<Rightarrow>
                         if r3 \<noteq> [] then None
                         else mk_date
                                (1000 * digit_val y1 + 100 * digit_val y2
                                 + 10 * digit_val y3 + digit_val y4) m d)))
      else None)"
| "strptime_ymd _ = None"

section \<open>Due-date validation and the aggregate validator\<close>

definition date_format_error :: string where
  "date_format_error = ''Invalid date format. Please use YYYY-MM-DD format.''"

definition date_past_error :: string where
  "date_past_error = ''Due date cannot be in the past.''"

definition date_far_error :: string where
  "date_far_error = ''Due date is too far in the future (max 5 years).''"

text \<open>
  \<open>today\<close> is \<open>datetime.now().date()\<close> at the time of the call. Everything from the
  parse to the second comparison is inside the \<open>try\<close>: a \<open>ValueError\<close> raised by
  the construction of \<open>max_future_date\<close> lands in the same \<open>except\<close> as a parse
  failure, after the past-date error may already have been appended.
\<close>

definition validate_due_date :: "date \<Rightarrow> string option \<Rightarrow> bool \<times> string list" where
  "validate_due_date today due_date =
     (let errors =
        (if truthy due_date then
           (case strptime_ymd (the due_date) of
              None \<Rightarrow> [date_format_error]
            | Some date_obj \<Rightarrow>
                let e1 = (if date_less date_obj today then [date_past_error] else [])
                in (case mk_date (year today + 5) (month today) (day today) of
                      None \<Rightarrow> e1 @ [date_format_error]
                    | Some max_future_date \<Rightarrow>
                        e1 @ (if date_less max_future_date date_obj
                              then [date_far_error] else [])))
         else [])
      in (errors = [], errors))"

definition validate_task_data ::
  "date \<Rightarrow> string option \<Rightarrow> string option \<Rightarrow> string option \<Rightarrow> string option
   \<Rightarrow> bool \<times> string list" where
  "validate_task_data today title description priority due_date =
     (let all_errors0 = [];
          (is_valid1, errors1) = validate_title title;
          all_errors1 = (if \<not> is_valid1 then all_errors0 @ errors1 else all_errors0);
          (is_valid2, errors2) = validate_description description;
          all_errors2 = (if \<not> is_valid2 then all_errors1 @ errors2 else all_errors1);
          (is_valid3, errors3) = validate_priority priority;
          all_errors3 = (if \<not> is_valid3 then all_errors2 @ errors3 else all_errors2);
          (is_valid4, errors4) = validate_due_date today due_date;
          all_errors4 = (if \<not> is_valid4 then all_errors3 @ errors4 else all_errors3)
      in (all_errors4 = [], all_errors4))"

section \<open>Sanitizer (validations.py, sanitize_input)\<close>

text \<open>
  \<open>str.replace(old, new)\<close> scans from the left and replaces each occurrence it meets,
  continuing after the occurrence; the replacement text is not scanned again. With an
  empty \<open>old\<close>, Python puts \<open>new\<close> before every character and at the end.
\<close>

function replace_scan :: "string \<Rightarrow> string \<Rightarrow> string \<Rightarrow> string" where
  "replace_scan old new [] = []"
| "replace_scan old new (c # cs) =
     (if old \<noteq> [] \<and> prefix old (c # cs)
      then new @ replace_scan old new (drop (length old) (c # cs))
      else c # replace_scan old new cs)"
  by pat_completeness auto
termination
  by (relation "measure (\<lambda>(old, new, s). length s)") auto

definition str_replace :: "string \<Rightarrow> string \<Rightarrow> string \<Rightarrow> string" where
  "str_replace s old new =
     (if old = [] then new @ concat (map (\<lambda>c. c # new) s) else replace_scan old new s)"

text \<open>
  The argument of \<open>sanitize_input\<close> is a form value or a default: a string or
  \<open>None\<close>, so the \<open>isinstance(value, str)\<close> test holds for every value that is
  not \<open>None\<close>.
\<close>

fun sanitize_input :: "string option \<Rightarrow> string option" where
  "sanitize_input None = None"
| "sanitize_input (Some v) =
     (let v1 = strip v
      in if v1 = [] then None
         else
           let v2 = str_replace (str_replace v1 ''<script>'' []) ''</script>'' [];
               v3 = str_replace v2 ''javascript:'' [];
               v4 = str_replace v3 ''onerror='' [];
               v5 = str_replace v4 ''onclick='' []
           in Some v5)"

text \<open>
  The reading of "remove every occurrence of \<open>p\<close> and keep the rest" that one pass
  of \<open>replace\<close> is compared with: the text is cut at the leftmost occurrence of
  \<open>p\<close>, the part before it is kept, and the part after it is treated the same way.
\<close>

inductive removed :: "string \<Rightarrow> string \<Rightarrow> string \<Rightarrow> bool" for p :: string where
  removed_none: "\<not> sublist p s \<Longrightarrow> removed p s s"
| removed_occ: "\<not> sublist p (u @ butlast p) \<Longrightarrow> removed p v r \<Longrightarrow> removed p (u @ p @ v) (u @ r)"

text \<open>What trimming means: \<open>t\<close> is \<open>s\<close> without its leading and trailing whitespace.\<close>

definition trimmed_of :: "string \<Rightarrow> string \<Rightarrow> bool" where
  "trimmed_of s t =
     ((\<exists>a b. s = a @ t @ b \<and> list_all isspace a \<and> list_all isspace b)
      \<and> (t = [] \<or> (\<not> isspace (hd t) \<and> \<not> isspace (last t))))"

section \<open>Conversion of the duration field (Python's int on a string)\<close>

text \<open>
  \<open>int(s)\<close> in base 10: whitespace around the literal is skipped, one sign may come
  first, and the digits may be separated by single underscores. The whitespace of
  \<open>int\<close> is not that of \<open>str.isspace\<close>: the separators U+001C to U+001F are
  refused. A literal of more than 4300 digits is refused as well (CPython's default
  limit). \<open>Inl ValueError\<close> is the exception.
\<close>

datatype exn = NotFound | ValueError | OverflowError | IntegrityError

definition int_space :: "char \<Rightarrow> bool" where
  "int_space c =
     (let n = (of_char c :: nat) in (9 \<le> n \<and> n \<le> 13) \<or> n = 32 \<or> n = 133 \<or> n = 160)"

definition int_literal_ok :: "string \<Rightarrow> bool" where
  "int_literal_ok ds =
     (ds \<noteq> [] \<and> isdigit (hd ds) \<and> isdigit (last ds)
      \<and> list_all (\<lambda>c. isdigit c \<or> c = CHR ''_'') ds
      \<and> \<not> sublist ''__'' ds
      \<and> length (filter isdigit ds) \<le> 4300)"

definition digits_value :: "string \<Rightarrow> int" where
  "digits_value ds = fold (\<lambda>c acc. 10 * acc + int (digit_val c)) (filter isdigit ds) 0"

definition py_int :: "string \<Rightarrow> exn + int" where
  "py_int s =
     (let t = rev (dropWhile int_space (rev (dropWhile int_space s)));
          (neg, ds) =
            (case t of
               [] \<Rightarrow> (False, [])
             | c # r \<Rightarrow>
                 if c = CHR ''-'' then (True, r)
                 else if c = CHR ''+'' then (False, r)
                 else (False, t))
      in if int_literal_ok ds
         then Inr (if neg then - digits_value ds else digits_value ds)
         else Inl ValueError)"

section \<open>Persistent state, requests and responses (app.py)\<close>

type_synonym timestamp = int

record user =
  u_id :: nat
  u_username :: string
  u_email :: string
  u_password_hash :: string
  u_created_at :: timestamp

record task =
  t_id :: nat
  t_title :: string
  t_description :: "string option"
  t_priority :: "string option"
  t_due_date :: "string option"
  t_status :: string
  t_duration :: int
  t_completed :: bool
  t_created_at :: timestamp
  t_user_id :: nat

text \<open>The two tables. A committed transaction returns the new tables; a rollback, the old.\<close>

record db =
  users :: "user list"
  tasks :: "task list"

datatype http_method = GET | POST

record request =
  req_method :: http_method
  form :: "string \<Rightarrow> string option"

text \<open>The session of a logged-in client holds \<open>user_id\<close> and \<open>username\<close>.\<close>

type_synonym session = "(nat \<times> string) option"

text \<open>
  A flashed message and its category. \<open>ExnMsg p e\<close> is the f-string that appends
  \<open>str(e)\<close> to the prefix \<open>p\<close>.
\<close>

datatype message = Msg string | ExnMsg string exn

record task_view =
  v_task :: task
  v_due_date :: "date option"
  v_days_left :: "int option"

datatype page_context = No_context | Task_context task | Tasks_context "task_view list"

datatype response = Redirect string | Render string page_context

record result =
  store :: db
  flashed :: "(message \<times> string) list"
  reply :: response

definition flash_errors :: "string list \<Rightarrow> (message \<times> string) list" where
  "flash_errors errors = map (\<lambda>error. (Msg error, ''error'')) errors"

definition get_safe_form_data :: "request \<Rightarrow> string \<Rightarrow> string option \<Rightarrow> string option" where
  "get_safe_form_data req field_name dflt =
     sanitize_input (case form req field_name of Some v \<Rightarrow> Some v | None \<Rightarrow> dflt)"

text \<open>
  A view returns \<open>Inr\<close> of its result, or \<open>Inl\<close> of an exception that no handler of
  the view caught. \<open>login_required\<close> answers for a client without a session.
\<close>

definition login_required ::
  "(session \<Rightarrow> db \<Rightarrow> exn + result) \<Rightarrow> session \<Rightarrow> db \<Rightarrow> exn + result" where
  "login_required f session d =
     (if session = None
      then Inr \<lparr>store = d,
                flashed = [(Msg ''Please log in to access this page.'', ''error'')],
                reply = Redirect ''login''\<rparr>
      else f session d)"

subsection \<open>Queries and commits\<close>

text \<open>SQLite stores an INTEGER in 64 bits; the driver raises for a larger Python int.\<close>

definition sqlite_integer_ok :: "int \<Rightarrow> bool" where
  "sqlite_integer_ok n = (- (2 ^ 63) \<le> n \<and> n < 2 ^ 63)"

text \<open>
  \<open>Task.query.filter_by(id=task_id, user_id=user_id).first_or_404()\<close>. The row is
  looked up by both keys at once. The task id is the number in the URL
  (\<open><int:task_id>\<close> accepts every non-negative integer) and is bound as a parameter of
  the SELECT: for a number that does not fit in 64 bits the driver raises
  \<open>OverflowError\<close> before any row is read. The user id is the one that \<open>login\<close>
  put in the session, the id of a stored row.
\<close>

definition task_first :: "nat \<Rightarrow> nat \<Rightarrow> db \<Rightarrow> task option" where
  "task_first task_id user_id d =
     find (\<lambda>t. t_id t = task_id \<and> t_user_id t = user_id) (tasks d)"

definition first_or_404 :: "'a option \<Rightarrow> exn + 'a" where
  "first_or_404 r = (case r of None \<Rightarrow> Inl NotFound | Some x \<Rightarrow> Inr x)"

definition task_first_or_404 :: "nat \<Rightarrow> nat \<Rightarrow> db \<Rightarrow> exn + task" where
  "task_first_or_404 task_id user_id d =
     (if sqlite_integer_ok (int task_id)
      then first_or_404 (task_first task_id user_id d)
      else Inl OverflowError)"

text \<open>A new row gets the largest id of the table plus one.\<close>

definition next_id :: "nat list \<Rightarrow> nat" where
  "next_id ids = Suc (fold max ids 0)"

definition commit_task_insert :: "db \<Rightarrow> task \<Rightarrow> exn + db" where
  "commit_task_insert d t =
     (if sqlite_integer_ok (t_duration t)
      then Inr (d\<lparr>tasks := tasks d @ [t\<lparr>t_id := next_id (map t_id (tasks d))\<rparr>]\<rparr>)
      else Inl OverflowError)"

text \<open>
  An UPDATE writes the columns that changed, for the row with the object's primary key.
  \<open>bind_duration\<close> is the binding of a changed duration.
\<close>

definition commit_task_update :: "db \<Rightarrow> task \<Rightarrow> db" where
  "commit_task_update d t =
     d\<lparr>tasks := map (\<lambda>r. if t_id r = t_id t then t else r) (tasks d)\<rparr>"

definition bind_duration :: "task \<Rightarrow> int \<Rightarrow> exn + int" where
  "bind_duration old n =
     (if n = t_duration old \<or> sqlite_integer_ok n then Inr n else Inl OverflowError)"

definition commit_task_delete :: "db \<Rightarrow> task \<Rightarrow> db" where
  "commit_task_delete d t = d\<lparr>tasks := filter (\<lambda>r. t_id r \<noteq> t_id t) (tasks d)\<rparr>"

text \<open>Both columns of \<open>User\<close> are declared unique; the insert fails on a collision.\<close>

definition commit_user_insert :: "db \<Rightarrow> user \<Rightarrow> exn + db" where
  "commit_user_insert d u =
     (if u_username u \<in> set (map u_username (users d))
         \<or> u_email u \<in> set (map u_email (users d))
      then Inl IntegrityError
      else Inr (d\<lparr>users := users d @ [u\<lparr>u_id := next_id (map u_id (users d))\<rparr>]\<rparr>))"

text \<open>\<open>User.query.filter_by(username=username).first()\<close>; \<open>None\<close> matches no row.\<close>

definition user_by_username :: "string option \<Rightarrow> db \<Rightarrow> user option" where
  "user_by_username username d = find (\<lambda>u. Some (u_username u) = username) (users d)"

definition user_by_email :: "string option \<Rightarrow> db \<Rightarrow> user option" where
  "user_by_email email d = find (\<lambda>u. Some (u_email u) = email) (users d)"

subsection \<open>register\<close>

text \<open>
  \<open>generate_password_hash\<close> salts at random; the hash function of this call is a
  parameter. \<open>now\<close> is the clock reading used for \<open>created_at\<close>.
\<close>

definition register ::
  "(string \<Rightarrow> string) \<Rightarrow> timestamp \<Rightarrow> request \<Rightarrow> session \<Rightarrow> db \<Rightarrow> exn + result" where
  "register generate_password_hash now req session d =
     (if session \<noteq> None
      then Inr \<lparr>store = d, flashed = [], reply = Redirect ''index''\<rparr>
      else if req_method req = POST then
        (let username = get_safe_form_data req ''username'' None;
             email = get_safe_form_data req ''email'' None;
             password = form req ''password'';
             confirm_password = form req ''confirm_password'';
             errors =
               (if \<not> truthy username \<or> length (the username) < 3
                then [''Username must be at least 3 characters long.''] else [])
               @ (if \<not> truthy email \<or> CHR ''@'' \<notin> set (the email)
                  then [''Please enter a valid email address.''] else [])
               @ (if \<not> truthy password \<or> length (the password) < 6
                  then [''Password must be at least 6 characters long.''] else [])
               @ (if password \<noteq> confirm_password
                  then [''Passwords do not match.''] else [])
               @ (if user_by_username username d \<noteq> None
                  then [''Username already exists.''] else [])
               @ (if user_by_email email d \<noteq> None
                  then [''Email already registered.''] else [])
         in if errors \<noteq> []
            then Inr \<lparr>store = d, flashed = flash_errors errors,
                      reply = Render ''register.html'' No_context\<rparr>
            else
              (case commit_user_insert d
                      \<lparr>u_id = 0, u_username = the username, u_email = the email,
                        u_password_hash = generate_password_hash (the password),
                        u_created_at = now\<rparr> of
                 Inl e \<Rightarrow>
                   Inr \<lparr>store = d,
                        flashed = [(ExnMsg ''Registration error: '' e, ''error'')],
                        reply = Render ''register.html'' No_context\<rparr>
               | Inr d' \<Rightarrow>
                   Inr \<lparr>store = d',
                        flashed = [(Msg ''Registration successful! Please log in.'',
                                    ''success'')],
                        reply = Redirect ''login''\<rparr>))
      else Inr \<lparr>store = d, flashed = [], reply = Render ''register.html'' No_context\<rparr>)"

subsection \<open>index\<close>

text \<open>
  The loop body of \<open>index\<close>. \<open>strptime\<close> is outside any \<open>try\<close>: its
  \<open>ValueError\<close> leaves the view.
\<close>

definition annotate :: "date \<Rightarrow> task \<Rightarrow> exn + task_view" where
  "annotate today t =
     (if truthy (t_due_date t) then
        (case strptime_ymd (the (t_due_date t)) of
           None \<Rightarrow> Inl ValueError
         | Some dd \<Rightarrow>
             Inr \<lparr>v_task = t, v_due_date = Some dd,
                  v_days_left = Some (days_between dd today)\<rparr>)
      else Inr \<lparr>v_task = t, v_due_date = None, v_days_left = None\<rparr>)"

fun annotate_all :: "date \<Rightarrow> task list \<Rightarrow> exn + task_view list" where
  "annotate_all today [] = Inr []"
| "annotate_all today (t # ts) =
     (case annotate today t of
        Inl e \<Rightarrow> Inl e
      | Inr v \<Rightarrow>
          (case annotate_all today ts of Inl e \<Rightarrow> Inl e | Inr vs \<Rightarrow> Inr (v # vs)))"

text \<open>
  \<open>order_by(Task.created_at.desc())\<close>: the rows come back with the latest
  \<open>created_at\<close> first. SQL leaves the order of rows with equal keys open; the model
  keeps them in table order.
\<close>

definition index_body :: "date \<Rightarrow> session \<Rightarrow> db \<Rightarrow> exn + result" where
  "index_body today session d =
     (let user_id = fst (the session);
          rows = sort_key (\<lambda>t. - t_created_at t)
                   (filter (\<lambda>t. t_user_id t = user_id) (tasks d))
      in case annotate_all today rows of
           Inl e \<Rightarrow> Inl e
         | Inr vs \<Rightarrow>
             Inr \<lparr>store = d, flashed = [],
                  reply = Render ''index.html'' (Tasks_context vs)\<rparr>)"

definition index :: "date \<Rightarrow> session \<Rightarrow> db \<Rightarrow> exn + result" where
  "index today = login_required (index_body today)"

subsection \<open>add_task\<close>

definition form_status :: "request \<Rightarrow> string" where
  "form_status req =
     (if truthy (form req ''status'') then the (form req ''status'') else ''Not Started'')"

definition form_duration :: "request \<Rightarrow> exn + int" where
  "form_duration req =
     (if truthy (form req ''duration'') then py_int (the (form req ''duration'')) else Inr 0)"

definition add_task_body ::
  "timestamp \<Rightarrow> date \<Rightarrow> request \<Rightarrow> session \<Rightarrow> db \<Rightarrow> exn + result" where
  "add_task_body now today req session d =
     (let user_id = fst (the session);
          title = get_safe_form_data req ''title'' None;
          description = get_safe_form_data req ''description'' None;
          priority = get_safe_form_data req ''priority'' (Some ''None'');
          due_date = get_safe_form_data req ''due_date'' None;
          (is_valid, errors) = validate_task_data today title description priority due_date
      in if \<not> is_valid
         then Inr \<lparr>store = d, flashed = flash_errors errors, reply = Redirect ''index''\<rparr>
         else
           (case form_duration req of
              Inl e \<Rightarrow>
                Inr \<lparr>store = d, flashed = [(ExnMsg ''Error adding task: '' e, ''error'')],
                     reply = Redirect ''index''\<rparr>
            | Inr duration \<Rightarrow>
                (case commit_task_insert d
                        \<lparr>t_id = 0, t_title = the title,
                          t_description = (if truthy description then description else None),
                          t_priority = priority, t_due_date = due_date,
                          t_status = form_status req, t_duration = duration,
                          t_completed = False, t_created_at = now,
                          t_user_id = user_id\<rparr> of
                   Inl e \<Rightarrow>
                     Inr \<lparr>store = d,
                          flashed = [(ExnMsg ''Error adding task: '' e, ''error'')],
                          reply = Redirect ''index''\<rparr>
                 | Inr d' \<Rightarrow>
                     Inr \<lparr>store = d',
                          flashed = [(Msg ''Task added successfully!'', ''success'')],
                          reply = Redirect ''index''\<rparr>)))"

definition add_task ::
  "timestamp \<Rightarrow> date \<Rightarrow> request \<Rightarrow> session \<Rightarrow> db \<Rightarrow> exn + result" where
  "add_task now today req = login_required (add_task_body now today req)"

subsection \<open>edit_task\<close>

definition edit_task_body ::
  "date \<Rightarrow> request \<Rightarrow> nat \<Rightarrow> session \<Rightarrow> db \<Rightarrow> exn + result" where
  "edit_task_body today req task_id session d =
     (let user_id = fst (the session)
      in case task_first_or_404 task_id user_id d of
           Inl e \<Rightarrow>
             Inr \<lparr>store = d, flashed = [(ExnMsg ''Error updating task: '' e, ''error'')],
                  reply = Redirect ''index''\<rparr>
         | Inr task \<Rightarrow>
             if req_method req = POST then
               (let title = get_safe_form_data req ''title'' None;
                    description = get_safe_form_data req ''description'' None;
                    priority = get_safe_form_data req ''priority'' (Some ''None'');
                    due_date = get_safe_form_data req ''due_date'' None;
                    (is_valid, errors) =
                       validate_task_data today title description priority due_date
                in if \<not> is_valid
                   then Inr \<lparr>store = d, flashed = flash_errors errors,
                             reply = Render ''edit.html'' (Task_context task)\<rparr>
                   else
                     (case (case form_duration req of
                              Inl e \<Rightarrow> Inl e
                            | Inr n \<Rightarrow> bind_duration task n) of
                        Inl e \<Rightarrow>
                          Inr \<lparr>store = d,
                               flashed = [(ExnMsg ''Error updating task: '' e, ''error'')],
                               reply = Redirect ''index''\<rparr>
                      | Inr duration \<Rightarrow>
                          Inr \<lparr>store = commit_task_update d
                                   (task\<lparr>t_title := the title,
                                      t_description := description,
                                      t_priority :=
                                        (if truthy priority then priority else Some ''None''),
                                      t_due_date := due_date,
                                      t_status := form_status req,
                                      t_duration := duration\<rparr>),
                               flashed = [(Msg ''Task updated successfully!'', ''success'')],
                               reply = Redirect ''index''\<rparr>))
             else Inr \<lparr>store = d, flashed = [],
                       reply = Render ''edit.html'' (Task_context task)\<rparr>)"

definition edit_task ::
  "date \<Rightarrow> request \<Rightarrow> nat \<Rightarrow> session \<Rightarrow> db \<Rightarrow> exn + result" where
  "edit_task today req task_id = login_required (edit_task_body today req task_id)"

subsection \<open>toggle_task and delete_task\<close>

definition toggle_task_body :: "nat \<Rightarrow> session \<Rightarrow> db \<Rightarrow> exn + result" where
  "toggle_task_body task_id session d =
     (let user_id = fst (the session)
      in case task_first_or_404 task_id user_id d of
           Inl e \<Rightarrow>
             Inr \<lparr>store = d, flashed = [(ExnMsg ''Error toggling task: '' e, ''error'')],
                  reply = Redirect ''index''\<rparr>
         | Inr task \<Rightarrow>
             (let task' = task\<lparr>t_completed := \<not> t_completed task\<rparr>;
                  status = (if t_completed task' then ''completed'' else ''reopened'')
              in Inr \<lparr>store = commit_task_update d task',
                      flashed = [(Msg (''Task '' @ status @ '' successfully!''), ''success'')],
                      reply = Redirect ''index''\<rparr>))"

definition toggle_task :: "nat \<Rightarrow> session \<Rightarrow> db \<Rightarrow> exn + result" where
  "toggle_task task_id = login_required (toggle_task_body task_id)"

definition delete_task_body :: "nat \<Rightarrow> session \<Rightarrow> db \<Rightarrow> exn + result" where
  "delete_task_body task_id session d =
     (let user_id = fst (the session)
      in case task_first_or_404 task_id user_id d of
           Inl e \<Rightarrow>
             Inr \<lparr>store = d, flashed = [(ExnMsg ''Error deleting task: '' e, ''error'')],
                  reply = Redirect ''index''\<rparr>
         | Inr task \<Rightarrow>
             Inr \<lparr>store = commit_task_delete d task,
                  flashed = [(Msg ''Task deleted successfully!'', ''success'')],
                  reply = Redirect ''index''\<rparr>)"

definition delete_task :: "nat \<Rightarrow> session \<Rightarrow> db \<Rightarrow> exn + result" where
  "delete_task task_id = login_required (delete_task_body task_id)"

section \<open>Invariants of the store\<close>

text \<open>Every stored due date that is present is a string that \<open>strptime\<close> accepts.\<close>

definition due_date_parses :: "task \<Rightarrow> bool" where
  "due_date_parses t = (\<not> truthy (t_due_date t) \<or> strptime_ymd (the (t_due_date t)) \<noteq> None)"

definition due_dates_parse :: "task list \<Rightarrow> bool" where
  "due_dates_parse ts = list_all due_date_parses ts"

text \<open>User names and e-mail addresses are each unique in the accounts table.\<close>

definition unique_accounts :: "db \<Rightarrow> bool" where
  "unique_accounts d =
     (distinct (map u_username (users d)) \<and> distinct (map u_email (users d)))"

text \<open>
  The states of the store that the application can be in: it starts with empty tables,
  and every committed change is the work of one of its views.
\<close>

inductive reachable :: "db \<Rightarrow> bool" where
  reachable_start: "reachable \<lparr>users = [], tasks = []\<rparr>"
| reachable_register:
    "reachable d \<Longrightarrow> register h now req session d = Inr r \<Longrightarrow> reachable (store r)"
| reachable_add:
    "reachable d \<Longrightarrow> add_task now today req session d = Inr r \<Longrightarrow> reachable (store r)"
| reachable_edit:
    "reachable d \<Longrightarrow> edit_task today req task_id session d = Inr r \<Longrightarrow> reachable (store r)"
| reachable_toggle:
    "reachable d \<Longrightarrow> toggle_task task_id session d = Inr r \<Longrightarrow> reachable (store r)"
| reachable_delete:
    "reachable d \<Longrightarrow> delete_task task_id session d = Inr r \<Longrightarrow> reachable (store r)"

section \<open>Example states and requests\<close>

text \<open>A store with one task, owned by user 2, and two add-task submissions.\<close>

definition db1 :: db where
  "db1 = \<lparr>users = [], tasks =
     [\<lparr>t_id = 7, t_title = ''Pay rent'', t_description = None, t_priority = Some ''High'',
       t_due_date = None, t_status = ''Not Started'', t_duration = 0, t_completed = False,
       t_created_at = 100, t_user_id = 2\<rparr>]\<rparr>"

definition req1 :: request where
  "req1 = \<lparr>req_method = POST, form = [''title'' \<mapsto> ''Buy milk'']\<rparr>"

definition req2 :: request where
  "req2 = \<lparr>req_method = POST, form = [''title'' \<mapsto> ''Buy milk'', ''priority'' \<mapsto> []]\<rparr>"

text \<open>
  A store with one account and three tasks, two of them of user 1, and a registration
  that asks for the user name of the existing account.
\<close>

definition db2 :: db where
  "db2 = \<lparr>users =
     [\<lparr>u_id = 1, u_username = ''alice'', u_email = ''alice@example.com'',
       u_password_hash = ''pbkdf2'', u_created_at = 10\<rparr>],
    tasks =
     [\<lparr>t_id = 8, t_title = ''Pay rent'', t_description = None, t_priority = Some ''High'',
       t_due_date = Some ''2026-11-10'', t_status = ''Not Started'', t_duration = 0,
       t_completed = False, t_created_at = 100, t_user_id = 1\<rparr>,
      \<lparr>t_id = 9, t_title = ''Call Bob'', t_description = None, t_priority = None,
       t_due_date = None, t_status = ''Not Started'', t_duration = 15,
       t_completed = False, t_created_at = 200, t_user_id = 1\<rparr>,
      \<lparr>t_id = 10, t_title = ''Pay rent'', t_description = None, t_priority = None,
       t_due_date = Some ''2026-12-01'', t_status = ''Not Started'', t_duration = 0,
       t_completed = False, t_created_at = 300, t_user_id = 2\<rparr>]\<rparr>"

definition req3 :: request where
  "req3 = \<lparr>req_method = POST,
            form = [''username'' \<mapsto> '' alice '', ''email'' \<mapsto> ''new@example.com'',
                    ''password'' \<mapsto> ''secret1'', ''confirm_password'' \<mapsto> ''secret1'']\<rparr>"

section \<open>Properties of the string functions\<close>

text \<open>
  \<open>strip\<close> cuts a block of whitespace off each end and nothing else, and what is left
  neither starts nor ends with whitespace.
\<close>

lemma rstrip_decomp: "s = rstrip s @ rev (takeWhile isspace (rev s))"
proof -
  have "rstrip s @ rev (takeWhile isspace (rev s))
        = rev (takeWhile isspace (rev s) @ dropWhile isspace (rev s))"
    unfolding rstrip_def rev_append ..
  also have "\<dots> = s" by simp
  finally show ?thesis by simp
qed

lemma strip_decomp:
  "s = takeWhile isspace s @ strip s @ rev (takeWhile isspace (rev (lstrip s)))"
proof -
  have "s = takeWhile isspace s @ lstrip s" by (simp add: lstrip_def)
  also have "lstrip s = strip s @ rev (takeWhile isspace (rev (lstrip s)))"
    unfolding strip_def by (rule rstrip_decomp)
  finally show ?thesis .
qed

lemma strip_margins:
  "list_all isspace (takeWhile isspace s)"
  "list_all isspace (rev (takeWhile isspace (rev (lstrip s))))"
  by (auto simp: list_all_iff dest: set_takeWhileD)

lemma strip_last: "strip s \<noteq> [] \<Longrightarrow> \<not> isspace (last (strip s))"
proof -
  assume ne: "strip s \<noteq> []"
  then have "dropWhile isspace (rev (lstrip s)) \<noteq> []" by (simp add: strip_def rstrip_def)
  then have "\<not> isspace (hd (dropWhile isspace (rev (lstrip s))))" by (rule hd_dropWhile)
  moreover have "last (strip s) = hd (dropWhile isspace (rev (lstrip s)))"
    using ne by (simp add: strip_def rstrip_def last_rev)
  ultimately show ?thesis by simp
qed

lemma strip_hd: "strip s \<noteq> [] \<Longrightarrow> \<not> isspace (hd (strip s))"
proof -
  assume ne: "strip s \<noteq> []"
  have dec: "lstrip s = strip s @ rev (takeWhile isspace (rev (lstrip s)))"
    unfolding strip_def by (rule rstrip_decomp)
  then have "lstrip s \<noteq> []" using ne by auto
  then have "\<not> isspace (hd (lstrip s))" unfolding lstrip_def by (rule hd_dropWhile)
  moreover have "hd (lstrip s) = hd (strip s)" using ne dec by (metis hd_append2)
  ultimately show ?thesis by simp
qed

lemma strip_empty_iff: "strip s = [] \<longleftrightarrow> list_all isspace s"
proof
  assume "strip s = []"
  then have all: "\<forall>x\<in>set (lstrip s). isspace x"
    by (simp add: strip_def rstrip_def)
  have "lstrip s = []"
  proof (rule ccontr)
    assume "lstrip s \<noteq> []"
    then have "\<not> isspace (hd (lstrip s))" unfolding lstrip_def by (rule hd_dropWhile)
    moreover have "hd (lstrip s) \<in> set (lstrip s)" using \<open>lstrip s \<noteq> []\<close> by simp
    ultimately show False using all by blast
  qed
  then have "\<forall>x\<in>set s. isspace x" by (simp only: lstrip_def dropWhile_eq_Nil_conv)
  then show "list_all isspace s" by (simp only: list_all_iff)
next
  assume "list_all isspace s"
  then have "\<forall>x\<in>set s. isspace x" by (simp only: list_all_iff)
  then have "dropWhile isspace s = []" by (simp only: dropWhile_eq_Nil_conv)
  then show "strip s = []" by (simp only: strip_def rstrip_def lstrip_def rev.simps dropWhile.simps)
qed

lemma trimmed_of_strip: "trimmed_of s (strip s)"
  unfolding trimmed_of_def
proof (intro conjI exI)
  show "s = takeWhile isspace s @ strip s @ rev (takeWhile isspace (rev (lstrip s)))"
    by (rule strip_decomp)
  show "list_all isspace (takeWhile isspace s)"
    and "list_all isspace (rev (takeWhile isspace (rev (lstrip s))))"
    by (rule strip_margins)+
  show "strip s = [] \<or> \<not> isspace (hd (strip s)) \<and> \<not> isspace (last (strip s))"
    using strip_hd strip_last by blast
qed

text \<open>
  One pass of \<open>replace(p, '')\<close> is the relation \<open>removed p\<close>: it deletes the
  occurrences of \<open>p\<close> met from left to right and keeps everything between them.
\<close>

lemma replace_scan_no_occ: "\<not> sublist p s \<Longrightarrow> replace_scan p n s = s"
  by (induction s) (auto simp: sublist_Cons_right)

lemma not_prefix_before_occ:
  assumes "\<not> sublist p ((a # u) @ butlast p)"
  shows "\<not> prefix p (a # u @ p @ v)"
proof
  assume pre: "prefix p (a # u @ p @ v)"
  have "prefix ((a # u) @ butlast p) ((a # u) @ p @ v)"
    by (simp add: prefixeq_butlast)
  moreover have "length p \<le> length ((a # u) @ butlast p)" by simp
  ultimately have "prefix p ((a # u) @ butlast p)"
    using pre prefix_length_prefix [of p "(a # u) @ p @ v" "(a # u) @ butlast p"] by simp
  then show False using assms prefix_imp_sublist by blast
qed

lemma replace_scan_occ:
  assumes "p \<noteq> []"
  shows "\<not> sublist p (u @ butlast p) \<Longrightarrow>
         replace_scan p n (u @ p @ v) = u @ n @ replace_scan p n v"
proof (induction u)
  case Nil
  obtain x xs where p: "p = x # xs" using assms by (cases p) auto
  have "replace_scan p n (p @ v) = n @ replace_scan p n (drop (length p) (p @ v))"
    unfolding p by simp
  then show ?case by simp
next
  case (Cons a u)
  have np: "\<not> prefix p (a # u @ p @ v)" using Cons.prems by (rule not_prefix_before_occ)
  have "\<not> sublist p (u @ butlast p)"
    using Cons.prems by (simp add: sublist_Cons_right)
  then show ?case using Cons.IH np by simp
qed

lemma removed_Cons:
  assumes np: "\<not> prefix p (c # cs)" and rem: "removed p cs r"
  shows "removed p (c # cs) (c # r)"
  using rem
proof (cases rule: removed.cases)
  case removed_none
  then have "\<not> sublist p (c # cs)" using np by (simp add: sublist_Cons_right)
  then show ?thesis using removed_none by (simp add: removed.removed_none)
next
  case (removed_occ u v r0)
  have "prefix ((c # u) @ butlast p) (c # cs)"
    unfolding removed_occ by (simp add: prefixeq_butlast)
  then have "\<not> prefix p ((c # u) @ butlast p)"
    using np prefix_order.trans by blast
  then have "\<not> sublist p ((c # u) @ butlast p)"
    using removed_occ(3) by (simp add: sublist_Cons_right)
  then have "removed p ((c # u) @ p @ v) ((c # u) @ r0)"
    using removed_occ(4) by (rule removed.removed_occ)
  then show ?thesis unfolding removed_occ by simp
qed

lemma removed_replace_scan:
  "p \<noteq> [] \<Longrightarrow> removed p s (replace_scan p [] s)"
proof (induction p "[] :: string" s rule: replace_scan.induct)
  case (1 old)
  then have "\<not> sublist old []" by simp
  then show ?case by (simp add: removed_none)
next
  case (2 old c cs)
  show ?case
  proof (cases "prefix old (c # cs)")
    case True
    define v where "v = drop (length old) (c # cs)"
    have v: "old @ v = c # cs"
      using True unfolding v_def by (metis append_eq_conv_conj prefixE)
    have step: "replace_scan old [] (c # cs) = replace_scan old [] v"
      using True 2(3) by (simp add: v_def)
    have "removed old v (replace_scan old [] v)"
      using 2(1) 2(3) True unfolding v_def by simp
    moreover have "\<not> sublist old ([] @ butlast old)"
    proof
      assume "sublist old ([] @ butlast old)"
      then obtain ps ss where "butlast old = ps @ old @ ss" by (auto simp: sublist_def)
      then have "length (butlast old) = length (ps @ old @ ss)" by simp
      then have "length old - 1 = length ps + length old + length ss"
        by (simp only: length_butlast length_append add.assoc)
      moreover have "0 < length old" using 2(3) by simp
      ultimately show False by linarith
    qed
    ultimately have "removed old ([] @ old @ v) ([] @ replace_scan old [] v)"
      by (rule removed_occ [rotated])
    then show ?thesis unfolding step by (simp add: v)
  next
    case False
    then have "removed old cs (replace_scan old [] cs)" using 2(2) 2(3) by simp
    then have "removed old (c # cs) (c # replace_scan old [] cs)"
      using False by (intro removed_Cons)
    then show ?thesis using False by simp
  qed
qed

lemma removed_unique:
  assumes "p \<noteq> []"
  shows "removed p s r \<Longrightarrow> r = replace_scan p [] s"
proof (induction rule: removed.induct)
  case (removed_none s)
  then show ?case by (simp add: replace_scan_no_occ)
next
  case (removed_occ u v r)
  then show ?case using replace_scan_occ [OF assms, of u "[]" v] by simp
qed


lemma str_replace_removed:
  "p \<noteq> [] \<Longrightarrow> removed p s r \<longleftrightarrow> r = str_replace s p []"
  using removed_replace_scan removed_unique by (auto simp: str_replace_def)

section \<open>Title validation\<close>

lemma set_title_punct:
  "set title_punct = {CHR ''.'', CHR '','', CHR ''!'', CHR ''?'', CHR ''-'', CHR ''_'',
     CHR ''('', CHR '')'', CHR ''['', CHR '']'', CHR ''{'', CHR ''}'', CHR '':'', CHR '';'',
     CHR 0x22, CHR 0x27}"
  by (simp add: title_punct_def)

text \<open>
  C3: \<open>validate_title\<close> rejects an absent or empty title with the single error
  "required". For a non-empty title it answers valid exactly when the trimmed title has
  between 3 and 200 characters and each of them is alphanumeric, whitespace or one of
  \<open>. , ! ? - _ ( ) [ ] { } : ; " '\<close>. The three checks are independent: each violated
  one appends its own message, the messages are pairwise different, and the
  invalid-character message appears together with the too-short one (title \<open>a<\<close>) and
  together with the too-long one (201 times \<open><\<close>).
\<close>

theorem validate_title_spec:
  "validate_title None = (False, [title_required])
   \<and> validate_title (Some []) = (False, [title_required])
   \<and> (t \<noteq> [] \<longrightarrow>
        fst (validate_title (Some t)) =
          (3 \<le> length (strip t) \<and> length (strip t) \<le> 200
           \<and> (\<forall>c\<in>set (strip t). isalnum c \<or> isspace c
                 \<or> c \<in> {CHR ''.'', CHR '','', CHR ''!'', CHR ''?'', CHR ''-'', CHR ''_'',
                     CHR ''('', CHR '')'', CHR ''['', CHR '']'', CHR ''{'', CHR ''}'',
                     CHR '':'', CHR '';'', CHR 0x22, CHR 0x27})))
   \<and> (t \<noteq> [] \<longrightarrow>
        snd (validate_title (Some t)) =
          (if length (strip t) < 3 then [title_too_short] else [])
          @ (if length (strip t) > 200 then [title_too_long] else [])
          @ (if list_all title_char_ok (strip t) then [] else [title_invalid_chars]))
   \<and> distinct [title_required, title_too_short, title_too_long, title_invalid_chars]
   \<and> validate_title (Some ''a<'') = (False, [title_too_short, title_invalid_chars])
   \<and> validate_title (Some (replicate 201 CHR ''<''))
       = (False, [title_too_long, title_invalid_chars])"
proof -
  have a: "validate_title None = (False, [title_required])"
    and b: "validate_title (Some []) = (False, [title_required])"
    by (simp_all add: validate_title_def)
  have c: "t \<noteq> [] \<longrightarrow>
        fst (validate_title (Some t)) =
          (3 \<le> length (strip t) \<and> length (strip t) \<le> 200
           \<and> (\<forall>c\<in>set (strip t). isalnum c \<or> isspace c \<or> c \<in> set title_punct))"
    by (auto simp add: validate_title_def Let_def list_all_iff title_char_ok_def)
  have d: "t \<noteq> [] \<longrightarrow>
        snd (validate_title (Some t)) =
          (if length (strip t) < 3 then [title_too_short] else [])
          @ (if length (strip t) > 200 then [title_too_long] else [])
          @ (if list_all title_char_ok (strip t) then [] else [title_invalid_chars])"
    by (simp add: validate_title_def Let_def)
  have e: "distinct [title_required, title_too_short, title_too_long, title_invalid_chars]"
    by (simp add: title_required_def title_too_short_def title_too_long_def
        title_invalid_chars_def)
  have f: "validate_title (Some ''a<'') = (False, [title_too_short, title_invalid_chars])"
    by (simp add: validate_title_def strip_def lstrip_def rstrip_def isspace_def Let_def
        title_char_ok_def isalnum_def title_punct_def)
  have "strip (replicate 201 CHR ''<'') = replicate 201 CHR ''<''"
    by (simp add: strip_def lstrip_def rstrip_def isspace_def)
  then have g: "validate_title (Some (replicate 201 CHR ''<''))
       = (False, [title_too_long, title_invalid_chars])"
    by (simp add: validate_title_def Let_def title_char_ok_def isalnum_def isspace_def
        title_punct_def list_all_iff)
  from a b c d e f g show ?thesis unfolding set_title_punct by blast
qed

theorem validate_title_spec_witness:
  "''  Buy milk, eggs!  '' \<noteq> [] \<and> strip ''  Buy milk, eggs!  '' = ''Buy milk, eggs!''
   \<and> fst (validate_title (Some ''  Buy milk, eggs!  ''))
   \<and> snd (validate_title (Some ''  Buy milk, eggs!  '')) = []"
proof -
  have s: "strip ''  Buy milk, eggs!  '' = ''Buy milk, eggs!''"
    by (simp add: strip_def lstrip_def rstrip_def isspace_def)
  have ok: "list_all title_char_ok ''Buy milk, eggs!''"
    by (simp add: title_char_ok_def isalnum_def isspace_def title_punct_def)
  show ?thesis
    using validate_title_spec [of "''  Buy milk, eggs!  ''"] s ok
    by (simp add: list_all_iff title_char_ok_def set_title_punct)
qed

section \<open>Priority validation\<close>

text \<open>
  C5, as stated, fails at the empty string: it is a string outside
  \<open>{Low, Medium, High}\<close>, and \<open>validate_priority\<close> accepts it, because the check is
  guarded by the truthiness of the value.
\<close>

theorem validate_priority_empty_counterexample:
  "[] \<notin> set [''Low'', ''Medium'', ''High''] \<and> fst (validate_priority (Some []))"
  by (simp add: validate_priority_def)

text \<open>
  C5, amended: \<open>validate_priority\<close> answers valid exactly when the priority is absent,
  the empty string, or one of the three strings \<open>Low\<close>, \<open>Medium\<close>, \<open>High\<close>,
  compared case-sensitively; every other string is invalid with the one priority error.
\<close>

theorem validate_priority_spec:
  "fst (validate_priority p) =
     (p = None \<or> p = Some [] \<or> p = Some ''Low'' \<or> p = Some ''Medium'' \<or> p = Some ''High'')
   \<and> snd (validate_priority p) = (if fst (validate_priority p) then [] else [priority_invalid])"
  by (cases p) (auto simp add: validate_priority_def)

theorem validate_priority_spec_witness:
  "\<not> fst (validate_priority (Some ''low'')) \<and> fst (validate_priority (Some ''Low''))
   \<and> snd (validate_priority (Some ''HIGH'')) = [priority_invalid]"
  using validate_priority_spec [of "Some ''low''"] validate_priority_spec [of "Some ''Low''"]
    validate_priority_spec [of "Some ''HIGH''"]
  by simp

section \<open>Sanitizer\<close>

text \<open>
  C7: \<open>sanitize_input\<close> maps \<open>None\<close> to \<open>None\<close>. A string is trimmed; when nothing
  is left the result is \<open>None\<close>; otherwise the five substrings \<open><script>\<close>,
  \<open></script>\<close>, \<open>javascript:\<close>, \<open>onerror=\<close>, \<open>onclick=\<close> are removed one
  after the other, each in one pass that deletes every occurrence and keeps the rest.
  \<open>"  <script>alert(1)</script>  "\<close> becomes \<open>"alert(1)"\<close>; \<open>""\<close> and \<open>"   "\<close>
  become \<open>None\<close>. The function is total on its input type and returns a value only.
\<close>

theorem sanitize_input_spec:
  "sanitize_input None = None
   \<and> trimmed_of s (strip s)
   \<and> (sanitize_input (Some s) = None \<longleftrightarrow> strip s = [])
   \<and> (strip s \<noteq> [] \<longrightarrow>
        (\<exists>r1 r2 r3 r4 r5.
           removed ''<script>'' (strip s) r1 \<and> removed ''</script>'' r1 r2
           \<and> removed ''javascript:'' r2 r3 \<and> removed ''onerror='' r3 r4
           \<and> removed ''onclick='' r4 r5 \<and> sanitize_input (Some s) = Some r5))
   \<and> sanitize_input (Some ''  <script>alert(1)</script>  '') = Some ''alert(1)''
   \<and> sanitize_input (Some []) = None
   \<and> sanitize_input (Some ''   '') = None"
proof -
  have a: "sanitize_input (Some s) = None \<longleftrightarrow> strip s = []"
    by (simp add: Let_def)
  have b: "strip s \<noteq> [] \<longrightarrow>
        (\<exists>r1 r2 r3 r4 r5.
           removed ''<script>'' (strip s) r1 \<and> removed ''</script>'' r1 r2
           \<and> removed ''javascript:'' r2 r3 \<and> removed ''onerror='' r3 r4
           \<and> removed ''onclick='' r4 r5 \<and> sanitize_input (Some s) = Some r5)"
    by (simp add: str_replace_removed Let_def)
  have c: "sanitize_input (Some ''  <script>alert(1)</script>  '') = Some ''alert(1)''"
    by (simp add: strip_def lstrip_def rstrip_def isspace_def str_replace_def)
  have d: "sanitize_input (Some []) = None" "sanitize_input (Some ''   '') = None"
    by (simp_all add: strip_def lstrip_def rstrip_def isspace_def)
  show ?thesis using a b c d trimmed_of_strip by simp
qed

theorem sanitize_input_spec_witness:
  "strip '' on<script>click=x '' \<noteq> []
   \<and> (\<exists>r1 r2 r3 r4 r5.
           removed ''<script>'' (strip '' on<script>click=x '') r1 \<and> removed ''</script>'' r1 r2
           \<and> removed ''javascript:'' r2 r3 \<and> removed ''onerror='' r3 r4
           \<and> removed ''onclick='' r4 r5 \<and> sanitize_input (Some '' on<script>click=x '') = Some r5)
   \<and> sanitize_input (Some '' on<script>click=x '') = Some ''x''"
proof -
  have s: "strip '' on<script>click=x '' = ''on<script>click=x''"
    by (simp add: strip_def lstrip_def rstrip_def isspace_def)
  have v: "sanitize_input (Some '' on<script>click=x '') = Some ''x''"
    by (simp add: s str_replace_def)
  show ?thesis using sanitize_input_spec [of "'' on<script>click=x ''"] s v by simp
qed

text \<open>
  C10: \<open>sanitize_input\<close> is not idempotent. On \<open><scr<script>ipt>\<close> the single pass
  leaves \<open><script>\<close>, which is on the denylist, and sanitizing again gives the empty
  string.
\<close>

theorem sanitize_input_not_idempotent:
  "sanitize_input (Some ''<scr<script>ipt>'') = Some ''<script>''
   \<and> sanitize_input (sanitize_input (Some ''<scr<script>ipt>'')) = Some []
   \<and> (\<exists>x y. sanitize_input (Some x) = Some y \<and> sublist ''<script>'' y
          \<and> sanitize_input (sanitize_input (Some x)) \<noteq> sanitize_input (Some x))"
proof -
  have a: "sanitize_input (Some ''<scr<script>ipt>'') = Some ''<script>''"
    by (simp add: strip_def lstrip_def rstrip_def isspace_def str_replace_def)
  have b: "sanitize_input (Some ''<script>'') = Some []"
    by (simp add: strip_def lstrip_def rstrip_def isspace_def str_replace_def)
  have "sanitize_input (Some ''<scr<script>ipt>'') = Some ''<script>'' \<and> sublist ''<script>'' ''<script>''
          \<and> sanitize_input (sanitize_input (Some ''<scr<script>ipt>'')) \<noteq> sanitize_input (Some ''<scr<script>ipt>'')"
    unfolding a b by simp
  then show ?thesis using a b by metis
qed

section \<open>The aggregate validator\<close>

text \<open>Every field validator answers valid exactly when its error list is empty.\<close>

lemma validate_title_fst: "fst (validate_title t) \<longleftrightarrow> snd (validate_title t) = []"
  by (simp add: validate_title_def Let_def)

lemma validate_description_fst:
  "fst (validate_description d) \<longleftrightarrow> snd (validate_description d) = []"
  by (simp add: validate_description_def Let_def)

lemma validate_priority_fst: "fst (validate_priority p) \<longleftrightarrow> snd (validate_priority p) = []"
  by (simp add: validate_priority_def Let_def)

lemma validate_due_date_fst:
  "fst (validate_due_date today dd) \<longleftrightarrow> snd (validate_due_date today dd) = []"
  by (simp add: validate_due_date_def Let_def)

lemma validate_task_data_errors:
  "snd (validate_task_data today t d p dd) =
     snd (validate_title t) @ snd (validate_description d)
     @ snd (validate_priority p) @ snd (validate_due_date today dd)"
  using validate_title_fst [of t] validate_description_fst [of d]
    validate_priority_fst [of p] validate_due_date_fst [of today dd]
  by (simp add: validate_task_data_def Let_def split_beta)

text \<open>
  C1: for all inputs \<open>validate_task_data\<close> returns the error lists of the four field
  validators concatenated in the order title, description, priority, due date, so a
  failure of an earlier validator hides nothing of a later one, and it answers valid
  exactly when all four validators do.
\<close>

theorem validate_task_data_spec:
  "snd (validate_task_data today t d p dd) =
     snd (validate_title t) @ snd (validate_description d)
     @ snd (validate_priority p) @ snd (validate_due_date today dd)
   \<and> fst (validate_task_data today t d p dd) =
       (fst (validate_title t) \<and> fst (validate_description d)
        \<and> fst (validate_priority p) \<and> fst (validate_due_date today dd))"
proof -
  have "fst (validate_task_data today t d p dd)
        \<longleftrightarrow> snd (validate_task_data today t d p dd) = []"
    by (simp add: validate_task_data_def Let_def split_beta)
  then show ?thesis
    unfolding validate_task_data_errors
    by (simp add: validate_title_fst validate_description_fst validate_priority_fst
        validate_due_date_fst)
qed

theorem validate_task_data_spec_witness:
  "validate_task_data \<lparr>year = 2026, month = 11, day = 4\<rparr>
     (Some ''ab'') None (Some ''Urgent'') (Some ''2026-11-03'')
   = (False, [title_too_short, priority_invalid, date_past_error])"
proof -
  have t: "validate_title (Some ''ab'') = (False, [title_too_short])"
    by (simp add: validate_title_def strip_def lstrip_def rstrip_def isspace_def Let_def
        title_char_ok_def isalnum_def)
  have d: "validate_description None = (True, [])"
    by (simp add: validate_description_def)
  have p: "validate_priority (Some ''Urgent'') = (False, [priority_invalid])"
    by (simp add: validate_priority_def)
  have dd: "validate_due_date \<lparr>year = 2026, month = 11, day = 4\<rparr> (Some ''2026-11-03'')
            = (False, [date_past_error])"
    by (simp add: validate_due_date_def isdigit_def digit_val_def mk_date_def
        days_in_month_def is_leap_def date_less_def)
  show ?thesis
    using validate_task_data_spec [of "\<lparr>year = 2026, month = 11, day = 4\<rparr>"
        "Some ''ab''" None "Some ''Urgent''" "Some ''2026-11-03''"]
    by (simp add: t d p dd prod_eq_iff)
qed

section \<open>Due-date validation\<close>

text \<open>
  For a valid \<open>today\<close> the construction of \<open>max_future_date\<close> fails exactly on 29
  February and in the years after 9994. Where it succeeds, the format error is reported
  exactly for the strings that do not parse, and a parsed date is valid exactly between
  today and the same day five years later.
\<close>

lemma date_errors_distinct:
  "distinct [date_format_error, date_past_error, date_far_error]"
  by (simp add: date_format_error_def date_past_error_def date_far_error_def)

lemma max_future_date_fails:
  assumes "mk_date (year today) (month today) (day today) = Some today"
  shows "mk_date (year today + 5) (month today) (day today) = None
         \<longleftrightarrow> (month today = 2 \<and> day today = 29) \<or> 9994 < year today"
proof -
  have v: "1 \<le> year today" "year today \<le> 9999" "1 \<le> month today" "month today \<le> 12"
    "1 \<le> day today" "day today \<le> days_in_month (year today) (month today)"
    using assms by (auto simp: mk_date_def split: if_splits)
  have nl: "is_leap (year today) \<Longrightarrow> \<not> is_leap (year today + 5)"
    unfolding is_leap_def by presburger
  show ?thesis
    using v nl by (auto simp: mk_date_def days_in_month_def split: if_splits)
qed

lemma validate_due_date_off_leap_day:
  assumes mx: "mk_date (year today + 5) (month today) (day today) = Some mx"
    and s: "s \<noteq> []"
  shows "(date_format_error \<in> set (snd (validate_due_date today (Some s))))
          = (strptime_ymd s = None)"
    and "strptime_ymd s = Some d \<Longrightarrow>
          fst (validate_due_date today (Some s))
          = (\<not> date_less d today \<and> \<not> date_less mx d)"
  using mx s date_errors_distinct
  by (auto simp: validate_due_date_def Let_def split: option.splits)

text \<open>
  C4 fails on 29 February. With today = 2028-02-29 the string \<open>2028-03-01\<close> parses,
  is tomorrow's date and is less than five years away, yet \<open>validate_due_date\<close>
  answers invalid with the format error: \<open>datetime(2033, 2, 29)\<close> raises inside the
  \<open>try\<close> that is meant for the parse.
\<close>

theorem validate_due_date_leap_day:
  "mk_date 2028 2 29 = Some \<lparr>year = 2028, month = 2, day = 29\<rparr>
   \<and> strptime_ymd ''2028-03-01'' = Some \<lparr>year = 2028, month = 3, day = 1\<rparr>
   \<and> \<not> date_less \<lparr>year = 2028, month = 3, day = 1\<rparr> \<lparr>year = 2028, month = 2, day = 29\<rparr>
   \<and> days_between \<lparr>year = 2028, month = 3, day = 1\<rparr> \<lparr>year = 2028, month = 2, day = 29\<rparr> = 1
   \<and> validate_due_date \<lparr>year = 2028, month = 2, day = 29\<rparr> (Some ''2028-03-01'')
       = (False, [date_format_error])"
  by (simp add: validate_due_date_def isdigit_def digit_val_def mk_date_def days_in_month_def
      is_leap_def date_less_def days_between_def toordinal_def days_before_year_def
      days_before_month_def)

section \<open>Ownership in edit, toggle and delete\<close>

lemma task_first_unowned:
  assumes "\<forall>t\<in>set (tasks d). t_id t = task_id \<longrightarrow> t_user_id t \<noteq> user_id"
  shows "task_first task_id user_id d = None"
  using assms by (auto simp: task_first_def find_None_iff)

lemma sqlite_integer_ok_nat: "sqlite_integer_ok (int n) \<longleftrightarrow> n < 2 ^ 63"
proof -
  have "int n < 2 ^ 63 \<longleftrightarrow> int n < int (2 ^ 63)" by simp
  also have "\<dots> \<longleftrightarrow> n < 2 ^ 63" by (simp only: of_nat_less_iff)
  finally have up: "int n < 2 ^ 63 \<longleftrightarrow> n < 2 ^ 63" .
  have "(0::int) \<le> 2 ^ 63" by simp
  then have low: "- (2 ^ 63) \<le> int n" by linarith
  show ?thesis unfolding sqlite_integer_ok_def using up low by simp
qed

lemma task_first_or_404_unowned:
  assumes "\<forall>t\<in>set (tasks d). t_id t = task_id \<longrightarrow> t_user_id t \<noteq> user_id"
  shows "task_first_or_404 task_id user_id d
         = Inl (if task_id < 2 ^ 63 then NotFound else OverflowError)"
  using task_first_unowned [OF assms]
  by (simp add: task_first_or_404_def first_or_404_def sqlite_integer_ok_nat)

text \<open>
  C2, as stated, fails at a task id that does not fit in 64 bits. User 1 owns no task
  with the id \<open>2 ^ 63\<close>, and \<open>toggle_task\<close> answers with the driver's overflow error,
  caught by \<open>except Exception\<close>, not with a not-found outcome.
\<close>

theorem unowned_task_overflow_counterexample:
  "map (\<lambda>t. (t_id t, t_user_id t)) (tasks db1) = [(7, 2)]
   \<and> toggle_task (2 ^ 63) (Some (1, ''alice'')) db1
       = Inr \<lparr>store = db1,
              flashed = [(ExnMsg ''Error toggling task: '' OverflowError, ''error'')],
              reply = Redirect ''index''\<rparr>
   \<and> OverflowError \<noteq> NotFound"
proof -
  have "\<not> sqlite_integer_ok (int (2 ^ 63))" unfolding sqlite_integer_ok_nat by simp
  then have "toggle_task (2 ^ 63) (Some (1, ''alice'')) db1
       = Inr \<lparr>store = db1,
              flashed = [(ExnMsg ''Error toggling task: '' OverflowError, ''error'')],
              reply = Redirect ''index''\<rparr>"
    by (simp add: toggle_task_def toggle_task_body_def login_required_def
        task_first_or_404_def)
  moreover have "map (\<lambda>t. (t_id t, t_user_id t)) (tasks db1) = [(7, 2)]"
    by (simp add: db1_def)
  ultimately show ?thesis by simp
qed

text \<open>
  C2, amended: when no task with the given id belongs to the acting user, whether the
  id is unused or belongs to a task of somebody else, \<open>edit_task\<close>, \<open>toggle_task\<close>
  and \<open>delete_task\<close> each leave the store as it was and answer with one flashed error
  and a redirect to the index. For an id below \<open>2 ^ 63\<close> the error is the lookup's
  \<open>NotFound\<close>; for a larger id, which no stored task can have, it is the driver's
  \<open>OverflowError\<close>. The answer is fixed by the id alone and contains nothing of the
  store, so an id of somebody else's task cannot be told from an unused one.
\<close>

theorem unowned_task_rejected:
  assumes "\<forall>t\<in>set (tasks d). t_id t = task_id \<longrightarrow> t_user_id t \<noteq> user_id"
  shows "task_first_or_404 task_id user_id d
           = Inl (if task_id < 2 ^ 63 then NotFound else OverflowError)
    \<and> edit_task today req task_id (Some (user_id, name)) d
        = Inr \<lparr>store = d,
               flashed = [(ExnMsg ''Error updating task: ''
                            (if task_id < 2 ^ 63 then NotFound else OverflowError),
                           ''error'')],
               reply = Redirect ''index''\<rparr>
    \<and> toggle_task task_id (Some (user_id, name)) d
        = Inr \<lparr>store = d,
               flashed = [(ExnMsg ''Error toggling task: ''
                            (if task_id < 2 ^ 63 then NotFound else OverflowError),
                           ''error'')],
               reply = Redirect ''index''\<rparr>
    \<and> delete_task task_id (Some (user_id, name)) d
        = Inr \<lparr>store = d,
               flashed = [(ExnMsg ''Error deleting task: ''
                            (if task_id < 2 ^ 63 then NotFound else OverflowError),
                           ''error'')],
               reply = Redirect ''index''\<rparr>"
proof -
  have lookup: "task_first_or_404 task_id user_id d
           = Inl (if task_id < 2 ^ 63 then NotFound else OverflowError)"
    by (rule task_first_or_404_unowned [OF assms])
  have "edit_task today req task_id (Some (user_id, name)) d
        = Inr \<lparr>store = d,
               flashed = [(ExnMsg ''Error updating task: ''
                            (if task_id < 2 ^ 63 then NotFound else OverflowError),
                           ''error'')],
               reply = Redirect ''index''\<rparr>"
    by (simp add: edit_task_def edit_task_body_def login_required_def lookup)
  moreover have "toggle_task task_id (Some (user_id, name)) d
        = Inr \<lparr>store = d,
               flashed = [(ExnMsg ''Error toggling task: ''
                            (if task_id < 2 ^ 63 then NotFound else OverflowError),
                           ''error'')],
               reply = Redirect ''index''\<rparr>"
    by (simp add: toggle_task_def toggle_task_body_def login_required_def lookup)
  moreover have "delete_task task_id (Some (user_id, name)) d
        = Inr \<lparr>store = d,
               flashed = [(ExnMsg ''Error deleting task: ''
                            (if task_id < 2 ^ 63 then NotFound else OverflowError),
                           ''error'')],
               reply = Redirect ''index''\<rparr>"
    by (simp add: delete_task_def delete_task_body_def login_required_def lookup)
  ultimately show ?thesis using lookup by (simp only: simp_thms)
qed

theorem unowned_task_rejected_witness:
  "map (\<lambda>t. (t_id t, t_user_id t)) (tasks db1) = [(7, 2)]
   \<and> toggle_task 7 (Some (1, ''alice'')) db1 = toggle_task 99 (Some (1, ''alice'')) db1
   \<and> delete_task 7 (Some (1, ''alice'')) db1 = delete_task 99 (Some (1, ''alice'')) db1
   \<and> edit_task \<lparr>year = 2026, month = 11, day = 4\<rparr> req1 7 (Some (1, ''alice'')) db1
       = edit_task \<lparr>year = 2026, month = 11, day = 4\<rparr> req1 99 (Some (1, ''alice'')) db1
   \<and> delete_task 7 (Some (1, ''alice'')) db1
       = Inr \<lparr>store = db1, flashed = [(ExnMsg ''Error deleting task: '' NotFound, ''error'')],
               reply = Redirect ''index''\<rparr>"
proof -
  have a: "\<forall>t\<in>set (tasks db1). t_id t = 7 \<longrightarrow> t_user_id t \<noteq> 1"
    and b: "\<forall>t\<in>set (tasks db1). t_id t = 99 \<longrightarrow> t_user_id t \<noteq> 1"
    and c: "map (\<lambda>t. (t_id t, t_user_id t)) (tasks db1) = [(7, 2)]"
    by (simp_all add: db1_def)
  show ?thesis
    using c unowned_task_rejected [OF a] unowned_task_rejected [OF b] by simp
qed

section \<open>Priority at the add-task action\<close>

lemma validate_title_buy_milk: "validate_title (Some ''Buy milk'') = (True, [])"
  by (simp add: validate_title_def strip_def lstrip_def rstrip_def isspace_def Let_def
        title_char_ok_def isalnum_def)

lemma sanitize_buy_milk: "sanitize_input (Some ''Buy milk'') = Some ''Buy milk''"
  by (simp add: strip_def lstrip_def rstrip_def isspace_def str_replace_def)
lemma sanitize_None_literal: "sanitize_input (Some ''None'') = Some ''None''"
  by (simp add: strip_def lstrip_def rstrip_def isspace_def str_replace_def)

lemma sanitize_empty: "sanitize_input (Some []) = None"
  by (simp add: strip_def lstrip_def rstrip_def)

lemma form_data_req1: "get_safe_form_data req1 ''title'' None = Some ''Buy milk''"
  "get_safe_form_data req1 ''description'' None = None"
  "get_safe_form_data req1 ''priority'' (Some ''None'') = Some ''None''"
  "get_safe_form_data req1 ''due_date'' None = None"
  by (simp_all add: get_safe_form_data_def req1_def sanitize_buy_milk sanitize_None_literal del: sanitize_input.simps(2))

lemma form_data_req2: "get_safe_form_data req2 ''title'' None = Some ''Buy milk''"
  "get_safe_form_data req2 ''description'' None = None"
  "get_safe_form_data req2 ''priority'' (Some ''None'') = None"
  "get_safe_form_data req2 ''due_date'' None = None"
  by (simp_all add: get_safe_form_data_def req2_def sanitize_buy_milk sanitize_None_literal sanitize_empty del: sanitize_input.simps(2))

lemma validate_with_None_literal: "validate_task_data today (Some ''Buy milk'') None (Some ''None'') None
           = (False, [priority_invalid])"
  by (simp add: validate_task_data_def validate_title_buy_milk validate_description_def validate_priority_def
       validate_due_date_def)

lemma validate_without_priority: "validate_task_data today (Some ''Buy milk'') None None None = (True, [])"
  by (simp add: validate_task_data_def validate_title_buy_milk validate_description_def validate_priority_def
       validate_due_date_def)

text \<open>
  C6 fails when the priority field is absent. The call site substitutes the string
  \<open>None\<close>, \<open>validate_priority\<close> rejects it, and \<open>add_task\<close> stores nothing,
  although title, description and due date are valid on their own.
\<close>

theorem add_task_without_priority_field:
  "form req1 ''priority'' = None
   \<and> validate_task_data today (Some ''Buy milk'') None None None = (True, [])
   \<and> add_task now today req1 (Some (1, ''alice'')) d
       = Inr \<lparr>store = d, flashed = [(Msg priority_invalid, ''error'')],
              reply = Redirect ''index''\<rparr>"
proof -
  have "form req1 ''priority'' = None" by (simp add: req1_def)
  moreover have "add_task now today req1 (Some (1, ''alice'')) d
       = Inr \<lparr>store = d, flashed = [(Msg priority_invalid, ''error'')],
              reply = Redirect ''index''\<rparr>"
    by (simp add: add_task_def add_task_body_def login_required_def form_data_req1 validate_with_None_literal flash_errors_def)
  ultimately show ?thesis using validate_without_priority by simp
qed

text \<open>A priority field that is present and empty is sanitized to \<open>None\<close> and accepted.\<close>

lemma add_task_empty_priority:
  "add_task now today req2 (Some (1, ''alice'')) \<lparr>users = us, tasks = []\<rparr>
       = Inr \<lparr>store = \<lparr>users = us, tasks = [\<lparr>t_id = 1, t_title = ''Buy milk'', t_description = None, t_priority = None,
               t_due_date = None, t_status = ''Not Started'', t_duration = 0, t_completed = False,
               t_created_at = now, t_user_id = 1\<rparr>]\<rparr>, flashed = [(Msg ''Task added successfully!'', ''success'')],
              reply = Redirect ''index''\<rparr>"
proof -
  have f: "form_duration req2 = Inr 0" "form_status req2 = ''Not Started''"
    by (simp_all add: form_duration_def form_status_def req2_def)
  show ?thesis
    by (simp add: add_task_def add_task_body_def login_required_def form_data_req2 validate_without_priority f
        commit_task_insert_def sqlite_integer_ok_def next_id_def)
qed

section \<open>Stored due dates\<close>

text \<open>
  \<open>add_task\<close> and \<open>edit_task\<close> store a due date only after \<open>validate_due_date\<close>
  has parsed it, and \<open>toggle_task\<close> and \<open>delete_task\<close> write no due date: every
  action keeps the stored due dates parseable.
\<close>

lemma validate_task_data_fst:
  "fst (validate_task_data today t d p dd) =
     (fst (validate_title t) \<and> fst (validate_description d)
      \<and> fst (validate_priority p) \<and> fst (validate_due_date today dd))"
proof -
  have "fst (validate_task_data today t d p dd)
        \<longleftrightarrow> snd (validate_task_data today t d p dd) = []"
    by (simp add: validate_task_data_def Let_def split_beta)
  then show ?thesis
    unfolding validate_task_data_errors
    by (simp add: validate_title_fst validate_description_fst validate_priority_fst
        validate_due_date_fst)
qed

lemma valid_due_date_parses:
  assumes "fst (validate_task_data today t de p dd)"
  shows "\<not> truthy dd \<or> strptime_ymd (the dd) \<noteq> None"
proof -
  have "fst (validate_due_date today dd)" using assms by (simp add: validate_task_data_fst)
  then show ?thesis
    by (auto simp: validate_due_date_def Let_def split: if_splits option.splits)
qed

lemma task_first_in_store:
  "task_first task_id user_id d = Some t \<Longrightarrow> t \<in> set (tasks d)"
  by (auto simp: task_first_def find_Some_iff)

lemma add_task_due_dates_parse:
  assumes inv: "due_dates_parse (tasks d)"
    and run: "add_task now today req session d = Inr r"
  shows "due_dates_parse (tasks (store r))"
proof -
  define title where "title = get_safe_form_data req ''title'' None"
  define description where "description = get_safe_form_data req ''description'' None"
  define priority where "priority = get_safe_form_data req ''priority'' (Some ''None'')"
  define due_date where "due_date = get_safe_form_data req ''due_date'' None"
  show ?thesis
  proof (cases "fst (validate_task_data today title description priority due_date)")
    case False
    then have "store r = d"
      using run
      by (auto simp: add_task_def login_required_def add_task_body_def Let_def split_beta
          title_def description_def priority_def due_date_def split: if_splits)
    then show ?thesis using inv by simp
  next
    case True
    then have "\<not> truthy due_date \<or> strptime_ymd (the due_date) \<noteq> None"
      by (rule valid_due_date_parses)
    then show ?thesis
      using run inv True
      by (auto simp: add_task_def login_required_def add_task_body_def Let_def split_beta
          commit_task_insert_def due_dates_parse_def due_date_parses_def
          title_def description_def priority_def due_date_def
          split: if_splits sum.splits)
  qed
qed

lemma edit_task_due_dates_parse:
  assumes inv: "due_dates_parse (tasks d)"
    and run: "edit_task today req task_id session d = Inr r"
  shows "due_dates_parse (tasks (store r))"
proof -
  define title where "title = get_safe_form_data req ''title'' None"
  define description where "description = get_safe_form_data req ''description'' None"
  define priority where "priority = get_safe_form_data req ''priority'' (Some ''None'')"
  define due_date where "due_date = get_safe_form_data req ''due_date'' None"
  show ?thesis
  proof (cases "fst (validate_task_data today title description priority due_date)")
    case False
    then have "store r = d"
      using run
      by (auto simp: edit_task_def login_required_def edit_task_body_def Let_def split_beta
          title_def description_def priority_def due_date_def split: if_splits sum.splits)
    then show ?thesis using inv by simp
  next
    case True
    then have "\<not> truthy due_date \<or> strptime_ymd (the due_date) \<noteq> None"
      by (rule valid_due_date_parses)
    then show ?thesis
      using run inv True
      by (auto simp: edit_task_def login_required_def edit_task_body_def Let_def split_beta
          commit_task_update_def due_dates_parse_def due_date_parses_def list_all_iff
          title_def description_def priority_def due_date_def
          split: if_splits sum.splits)
  qed
qed

lemma toggle_task_due_dates_parse:
  assumes inv: "due_dates_parse (tasks d)"
    and run: "toggle_task task_id session d = Inr r"
  shows "due_dates_parse (tasks (store r))"
  using assms
  by (auto simp: toggle_task_def login_required_def toggle_task_body_def Let_def
      task_first_or_404_def first_or_404_def commit_task_update_def due_dates_parse_def
      due_date_parses_def list_all_iff
      dest!: task_first_in_store split: if_splits option.splits)

lemma delete_task_due_dates_parse:
  assumes inv: "due_dates_parse (tasks d)"
    and run: "delete_task task_id session d = Inr r"
  shows "due_dates_parse (tasks (store r))"
  using assms
  by (auto simp: delete_task_def login_required_def delete_task_body_def Let_def
      task_first_or_404_def first_or_404_def commit_task_delete_def due_dates_parse_def
      list_all_iff split: if_splits option.splits)

section \<open>Day numbers\<close>

text \<open>\<open>toordinal\<close> on three dates, as \<open>date.toordinal\<close> reports them.\<close>

lemma toordinal_examples:
  "toordinal \<lparr>year = 1, month = 1, day = 1\<rparr> = 1"
  "toordinal \<lparr>year = 2024, month = 3, day = 1\<rparr> = 738946"
  "toordinal \<lparr>year = 9999, month = 12, day = 31\<rparr> = 3652059"
  by (simp_all add: toordinal_def days_before_year_def days_before_month_def is_leap_def)

section \<open>Listing the tasks\<close>

text \<open>
  The loop of \<open>index\<close> succeeds on rows whose due dates parse, keeps their order and
  attaches the difference in days; on any other row it raises.
\<close>

lemma annotate_ok:
  assumes "due_date_parses t"
  shows "\<exists>v. annotate today t = Inr v \<and> v_task v = t
           \<and> v_days_left v =
               (if truthy (t_due_date t)
                then Some (days_between (the (strptime_ymd (the (t_due_date t)))) today)
                else None)"
  using assms by (auto simp: annotate_def due_date_parses_def)

lemma annotate_all_ok:
  assumes "due_dates_parse ts"
  shows "\<exists>vs. annotate_all today ts = Inr vs \<and> map v_task vs = ts
           \<and> list_all (\<lambda>v. v_days_left v =
               (if truthy (t_due_date (v_task v))
                then Some (days_between (the (strptime_ymd (the (t_due_date (v_task v))))) today)
                else None)) vs"
  using assms
proof (induction ts)
  case Nil
  then show ?case by simp
next
  case (Cons t ts)
  from Cons.prems have t: "due_date_parses t" and ts: "due_dates_parse ts"
    by (simp_all add: due_dates_parse_def)
  from annotate_ok [OF t, of today] obtain v where v: "annotate today t = Inr v"
    "v_task v = t"
    "v_days_left v =
               (if truthy (t_due_date t)
                then Some (days_between (the (strptime_ymd (the (t_due_date t)))) today)
                else None)" by blast
  from Cons.IH [OF ts] obtain vs where vs: "annotate_all today ts = Inr vs"
    "map v_task vs = ts"
    "list_all (\<lambda>v. v_days_left v =
               (if truthy (t_due_date (v_task v))
                then Some (days_between (the (strptime_ymd (the (t_due_date (v_task v))))) today)
                else None)) vs" by blast
  show ?case
    by (rule exI [of _ "v # vs"]) (simp add: v vs)
qed

lemma annotate_all_fails:
  "\<not> due_dates_parse ts \<Longrightarrow> annotate_all today ts = Inl ValueError"
proof (induction ts)
  case Nil
  then show ?case by (simp add: due_dates_parse_def)
next
  case (Cons t ts)
  show ?case
  proof (cases "due_date_parses t")
    case True
    then have "\<not> due_dates_parse ts" using Cons.prems by (simp add: due_dates_parse_def)
    then have "annotate_all today ts = Inl ValueError" by (rule Cons.IH)
    moreover obtain v where "annotate today t = Inr v" using annotate_ok [OF True] by blast
    ultimately show ?thesis by simp
  next
    case False
    then have "annotate today t = Inl ValueError"
      by (auto simp: annotate_def due_date_parses_def)
    then show ?thesis by simp
  qed
qed

lemma due_dates_parse_sort:
  "due_dates_parse (sort_key f ts) = due_dates_parse ts"
  by (simp add: due_dates_parse_def list_all_iff)

lemma sorted_desc_created:
  "sorted_wrt (\<lambda>a b. t_created_at b \<le> t_created_at a) (sort_key (\<lambda>t. - t_created_at t) ts)"
proof -
  have "sorted (map (\<lambda>t. - t_created_at t) (sort_key (\<lambda>t. - t_created_at t) ts))"
    by (rule sorted_sort_key)
  then show ?thesis by (simp add: sorted_map)
qed

text \<open>
  C9: in a store whose due dates are calendar date strings, \<open>index\<close> renders exactly
  the tasks of the session user (as a multiset: nothing lost, nothing added), with no
  task created earlier placed before one created later, and gives each task the number
  of days from today to its due date, or no value when it has no due date.
\<close>

theorem index_spec:
  assumes "due_dates_parse (filter (\<lambda>t. t_user_id t = user_id) (tasks d))"
  shows "\<exists>vs. index today (Some (user_id, name)) d
               = Inr \<lparr>store = d, flashed = [],
                      reply = Render ''index.html'' (Tasks_context vs)\<rparr>
           \<and> mset (map v_task vs) = mset (filter (\<lambda>t. t_user_id t = user_id) (tasks d))
           \<and> sorted_wrt (\<lambda>a b. t_created_at b \<le> t_created_at a) (map v_task vs)
           \<and> list_all (\<lambda>v. v_days_left v =
               (if truthy (t_due_date (v_task v))
                then Some (days_between (the (strptime_ymd (the (t_due_date (v_task v))))) today)
                else None)) vs"
proof -
  let ?rows = "sort_key (\<lambda>t. - t_created_at t) (filter (\<lambda>t. t_user_id t = user_id) (tasks d))"
  have "due_dates_parse ?rows" using assms by (simp add: due_dates_parse_sort)
  from annotate_all_ok [OF this, of today] obtain vs where vs:
    "annotate_all today ?rows = Inr vs" "map v_task vs = ?rows"
    "list_all (\<lambda>v. v_days_left v =
               (if truthy (t_due_date (v_task v))
                then Some (days_between (the (strptime_ymd (the (t_due_date (v_task v))))) today)
                else None)) vs" by blast
  have "index today (Some (user_id, name)) d
               = Inr \<lparr>store = d, flashed = [],
                      reply = Render ''index.html'' (Tasks_context vs)\<rparr>"
    by (simp add: index_def login_required_def index_body_def vs(1))
  moreover have "mset (map v_task vs) = mset (filter (\<lambda>t. t_user_id t = user_id) (tasks d))"
    by (simp add: vs(2))
  moreover have "sorted_wrt (\<lambda>a b. t_created_at b \<le> t_created_at a) (map v_task vs)"
    unfolding vs(2) by (rule sorted_desc_created)
  ultimately show ?thesis using vs(3) by blast
qed

theorem index_spec_witness:
  "due_dates_parse (filter (\<lambda>t. t_user_id t = 1) (tasks db2))
   \<and> (\<exists>vs. index \<lparr>year = 2026, month = 11, day = 4\<rparr> (Some (1, ''alice'')) db2
               = Inr \<lparr>store = db2, flashed = [],
                      reply = Render ''index.html'' (Tasks_context vs)\<rparr>
           \<and> map (\<lambda>v. t_id (v_task v)) vs = [9, 8]
           \<and> map v_days_left vs = [None, Some 6])"
proof -
  have p8: "strptime_ymd ''2026-11-10'' = Some \<lparr>year = 2026, month = 11, day = 10\<rparr>"
    by (simp add: isdigit_def digit_val_def mk_date_def days_in_month_def)
  have hyp: "due_dates_parse (filter (\<lambda>t. t_user_id t = 1) (tasks db2))"
    by (simp add: due_dates_parse_def due_date_parses_def db2_def p8 del: strptime_ymd.simps)
  have db: "days_between \<lparr>year = 2026, month = 11, day = 10\<rparr>
              \<lparr>year = 2026, month = 11, day = 4\<rparr> = 6"
    by (simp add: days_between_def toordinal_def days_before_year_def days_before_month_def
        is_leap_def)
  from index_spec [OF hyp, of "\<lparr>year = 2026, month = 11, day = 4\<rparr>" "''alice''"]
  obtain vs where vs: "index \<lparr>year = 2026, month = 11, day = 4\<rparr> (Some (1, ''alice'')) db2
               = Inr \<lparr>store = db2, flashed = [],
                      reply = Render ''index.html'' (Tasks_context vs)\<rparr>" by blast
  have eval: "index \<lparr>year = 2026, month = 11, day = 4\<rparr> (Some (1, ''alice'')) db2
     = Inr \<lparr>store = db2, flashed = [],
            reply = Render ''index.html'' (Tasks_context
              [\<lparr>v_task = tasks db2 ! 1, v_due_date = None, v_days_left = None\<rparr>,
               \<lparr>v_task = tasks db2 ! 0,
                 v_due_date = Some \<lparr>year = 2026, month = 11, day = 10\<rparr>,
                 v_days_left = Some 6\<rparr>])\<rparr>"
    by (simp add: index_def login_required_def index_body_def db2_def annotate_def p8 db
        del: strptime_ymd.simps)
  have "vs = [\<lparr>v_task = tasks db2 ! 1, v_due_date = None, v_days_left = None\<rparr>,
            \<lparr>v_task = tasks db2 ! 0,
              v_due_date = Some \<lparr>year = 2026, month = 11, day = 10\<rparr>,
              v_days_left = Some 6\<rparr>]"
    using vs unfolding eval by simp
  then have m: "map (\<lambda>v. t_id (v_task v)) vs = [9, 8]" "map v_days_left vs = [None, Some 6]"
    by (simp_all add: db2_def)
  show ?thesis
    by (intro conjI exI [of _ vs]) (fact hyp, fact vs, fact m(1), fact m(2))
qed

section \<open>Registration\<close>

lemma user_by_username_iff:
  "user_by_username n d \<noteq> None \<longleftrightarrow> (\<exists>x. n = Some x \<and> x \<in> set (map u_username (users d)))"
  by (auto simp: user_by_username_def find_None_iff)

lemma user_by_email_iff:
  "user_by_email e d \<noteq> None \<longleftrightarrow> (\<exists>x. e = Some x \<and> x \<in> set (map u_email (users d)))"
  by (auto simp: user_by_email_def find_None_iff)

lemma register_rejects:
  assumes post: "req_method req = POST"
    and taken: "user_by_username (get_safe_form_data req ''username'' None) d \<noteq> None
                \<or> user_by_email (get_safe_form_data req ''email'' None) d \<noteq> None"
  shows "\<exists>es. register h now req None d
              = Inr \<lparr>store = d, flashed = flash_errors es,
                     reply = Render ''register.html'' No_context\<rparr>
            \<and> (user_by_username (get_safe_form_data req ''username'' None) d \<noteq> None
                 \<longrightarrow> ''Username already exists.'' \<in> set es)
            \<and> (user_by_email (get_safe_form_data req ''email'' None) d \<noteq> None
                 \<longrightarrow> ''Email already registered.'' \<in> set es)"
proof -
  define username where "username = get_safe_form_data req ''username'' None"
  define email where "email = get_safe_form_data req ''email'' None"
  define password where "password = form req ''password''"
  define confirm_password where "confirm_password = form req ''confirm_password''"
  define es where "es =
               (if \<not> truthy username \<or> length (the username) < 3
                then [''Username must be at least 3 characters long.''] else [])
               @ (if \<not> truthy email \<or> CHR ''@'' \<notin> set (the email)
                  then [''Please enter a valid email address.''] else [])
               @ (if \<not> truthy password \<or> length (the password) < 6
                  then [''Password must be at least 6 characters long.''] else [])
               @ (if password \<noteq> confirm_password
                  then [''Passwords do not match.''] else [])
               @ (if user_by_username username d \<noteq> None
                  then [''Username already exists.''] else [])
               @ (if user_by_email email d \<noteq> None
                  then [''Email already registered.''] else [])"
  have u: "user_by_username username d \<noteq> None \<longrightarrow> ''Username already exists.'' \<in> set es"
    and e: "user_by_email email d \<noteq> None \<longrightarrow> ''Email already registered.'' \<in> set es"
    unfolding es_def by simp_all
  then have ne: "es \<noteq> []" using taken unfolding username_def email_def by auto
  have "register h now req None d
        = (if es \<noteq> []
            then Inr \<lparr>store = d, flashed = flash_errors es,
                      reply = Render ''register.html'' No_context\<rparr>
            else
              (case commit_user_insert d
                      \<lparr>u_id = 0, u_username = the username, u_email = the email,
                        u_password_hash = h (the password),
                        u_created_at = now\<rparr> of
                 Inl e \<Rightarrow>
                   Inr \<lparr>store = d,
                        flashed = [(ExnMsg ''Registration error: '' e, ''error'')],
                        reply = Render ''register.html'' No_context\<rparr>
               | Inr d' \<Rightarrow>
                   Inr \<lparr>store = d',
                        flashed = [(Msg ''Registration successful! Please log in.'',
                                    ''success'')],
                        reply = Redirect ''login''\<rparr>))"
    unfolding register_def Let_def es_def username_def email_def password_def
      confirm_password_def
    by (simp only: post if_True if_False simp_thms)
  then have "register h now req None d
        = Inr \<lparr>store = d, flashed = flash_errors es,
                      reply = Render ''register.html'' No_context\<rparr>"
    using ne by simp
  then show ?thesis using u e unfolding username_def email_def by blast
qed

lemma register_store:
  "\<exists>r. register h now req session d = Inr r
        \<and> (store r = d
            \<or> (\<exists>u. store r = d\<lparr>users := users d @ [u]\<rparr>
                 \<and> Some (u_username u) = get_safe_form_data req ''username'' None
                 \<and> Some (u_email u) = get_safe_form_data req ''email'' None
                 \<and> u_username u \<notin> set (map u_username (users d))
                 \<and> u_email u \<notin> set (map u_email (users d))))"
proof -
  let ?username = "get_safe_form_data req ''username'' None"
  let ?email = "get_safe_form_data req ''email'' None"
  show ?thesis
  proof (cases "session = None \<and> req_method req = POST
                \<and> truthy ?username \<and> truthy ?email
                \<and> user_by_username ?username d = None \<and> user_by_email ?email d = None")
    case False
    then show ?thesis
      by (auto simp: register_def Let_def split: sum.splits)
  next
    case True
    then obtain n e where ne: "?username = Some n" "?email = Some e"
      by (cases ?username; cases ?email) auto
    have fresh: "n \<notin> set (map u_username (users d))" "e \<notin> set (map u_email (users d))"
      using True user_by_username_iff [of ?username d] user_by_email_iff [of ?email d] ne
      by auto
    show ?thesis
      using True ne fresh
      by (auto simp: register_def Let_def commit_user_insert_def split: sum.splits)
  qed
qed

lemma register_unique_accounts:
  assumes "unique_accounts d" and "register h now req session d = Inr r"
  shows "unique_accounts (store r)"
  using assms register_store [of h now req session d]
  by (auto simp: unique_accounts_def)

text \<open>
  C8: the user name and the e-mail address of a registration are the sanitized form
  values. When either of them is already in the accounts table, \<open>register\<close> flashes
  the matching duplicate error, renders the form again and leaves the store as it was;
  whatever the request, a store with unique user names and unique e-mail addresses
  stays so.
\<close>

theorem register_duplicate_spec:
  "(req_method req = POST
      \<and> (user_by_username (get_safe_form_data req ''username'' None) d \<noteq> None
          \<or> user_by_email (get_safe_form_data req ''email'' None) d \<noteq> None)
     \<longrightarrow> (\<exists>es. register h now req None d
              = Inr \<lparr>store = d, flashed = flash_errors es,
                     reply = Render ''register.html'' No_context\<rparr>
            \<and> (user_by_username (get_safe_form_data req ''username'' None) d \<noteq> None
                 \<longrightarrow> ''Username already exists.'' \<in> set es)
            \<and> (user_by_email (get_safe_form_data req ''email'' None) d \<noteq> None
                 \<longrightarrow> ''Email already registered.'' \<in> set es)))
   \<and> (user_by_username (get_safe_form_data req ''username'' None) d \<noteq> None
          \<longleftrightarrow> (\<exists>x. get_safe_form_data req ''username'' None = Some x
                    \<and> x \<in> set (map u_username (users d))))
   \<and> (user_by_email (get_safe_form_data req ''email'' None) d \<noteq> None
          \<longleftrightarrow> (\<exists>x. get_safe_form_data req ''email'' None = Some x
                    \<and> x \<in> set (map u_email (users d))))
   \<and> (user_by_username (get_safe_form_data req ''username'' None) d \<noteq> None
          \<or> user_by_email (get_safe_form_data req ''email'' None) d \<noteq> None
       \<longrightarrow> (\<exists>r. register h now req session d = Inr r \<and> store r = d))
   \<and> (unique_accounts d
       \<longrightarrow> (\<exists>r. register h now req session d = Inr r \<and> unique_accounts (store r)))"
proof (intro conjI impI)
  assume "req_method req = POST
      \<and> (user_by_username (get_safe_form_data req ''username'' None) d \<noteq> None
          \<or> user_by_email (get_safe_form_data req ''email'' None) d \<noteq> None)"
  then show "\<exists>es. register h now req None d
              = Inr \<lparr>store = d, flashed = flash_errors es,
                     reply = Render ''register.html'' No_context\<rparr>
            \<and> (user_by_username (get_safe_form_data req ''username'' None) d \<noteq> None
                 \<longrightarrow> ''Username already exists.'' \<in> set es)
            \<and> (user_by_email (get_safe_form_data req ''email'' None) d \<noteq> None
                 \<longrightarrow> ''Email already registered.'' \<in> set es)"
    using register_rejects [of req d h now] by blast
next
  show "user_by_username (get_safe_form_data req ''username'' None) d \<noteq> None
          \<longleftrightarrow> (\<exists>x. get_safe_form_data req ''username'' None = Some x
                    \<and> x \<in> set (map u_username (users d)))"
    by (rule user_by_username_iff)
next
  show "user_by_email (get_safe_form_data req ''email'' None) d \<noteq> None
          \<longleftrightarrow> (\<exists>x. get_safe_form_data req ''email'' None = Some x
                    \<and> x \<in> set (map u_email (users d)))"
    by (rule user_by_email_iff)
next
  assume taken: "user_by_username (get_safe_form_data req ''username'' None) d \<noteq> None
          \<or> user_by_email (get_safe_form_data req ''email'' None) d \<noteq> None"
  obtain r where r: "register h now req session d = Inr r"
    and cases: "store r = d
            \<or> (\<exists>u. store r = d\<lparr>users := users d @ [u]\<rparr>
                 \<and> Some (u_username u) = get_safe_form_data req ''username'' None
                 \<and> Some (u_email u) = get_safe_form_data req ''email'' None
                 \<and> u_username u \<notin> set (map u_username (users d))
                 \<and> u_email u \<notin> set (map u_email (users d)))"
    using register_store [of h now req session d] by blast
  have "store r = d"
  proof (rule ccontr)
    assume "store r \<noteq> d"
    then obtain u :: user where u: "Some (u_username u) = get_safe_form_data req ''username'' None"
      "Some (u_email u) = get_safe_form_data req ''email'' None"
      "u_username u \<notin> set (map u_username (users d))"
      "u_email u \<notin> set (map u_email (users d))"
      using cases by blast
    from taken show False
      unfolding user_by_username_iff user_by_email_iff using u by (metis option.inject)
  qed
  then show "\<exists>r. register h now req session d = Inr r \<and> store r = d" using r by blast
next
  assume "unique_accounts d"
  then show "\<exists>r. register h now req session d = Inr r \<and> unique_accounts (store r)"
    using register_store [of h now req session d] register_unique_accounts by blast
qed

lemma sanitize_alice: "sanitize_input (Some '' alice '') = Some ''alice''"
  by (simp add: strip_def lstrip_def rstrip_def isspace_def str_replace_def)

lemma sanitize_new_email: "sanitize_input (Some ''new@example.com'') = Some ''new@example.com''"
  by (simp add: strip_def lstrip_def rstrip_def isspace_def str_replace_def)

lemma form_data_req3:
  "get_safe_form_data req3 ''username'' None = Some ''alice''"
  "get_safe_form_data req3 ''email'' None = Some ''new@example.com''"
  by (simp_all add: get_safe_form_data_def req3_def sanitize_alice sanitize_new_email
      del: sanitize_input.simps(2))

theorem register_duplicate_spec_witness:
  "req_method req3 = POST
   \<and> map u_username (users db2) = [''alice'']
   \<and> get_safe_form_data req3 ''username'' None = Some ''alice''
   \<and> unique_accounts db2
   \<and> register (\<lambda>p. ''salted'' @ p) 500 req3 None db2
       = Inr \<lparr>store = db2, flashed = [(Msg ''Username already exists.'', ''error'')],
              reply = Render ''register.html'' No_context\<rparr>"
proof -
  have p: "req_method req3 = POST" by (simp add: req3_def)
  have us: "map u_username (users db2) = [''alice'']" by (simp add: db2_def)
  have ua: "unique_accounts db2" by (simp add: unique_accounts_def db2_def)
  have tk: "user_by_username (get_safe_form_data req3 ''username'' None) db2 \<noteq> None"
    by (simp add: form_data_req3 user_by_username_def db2_def)
  have ntk: "user_by_email (get_safe_form_data req3 ''email'' None) db2 = None"
    by (simp add: form_data_req3 user_by_email_def db2_def)
  have val: "register (\<lambda>p. ''salted'' @ p) 500 req3 None db2
       = Inr \<lparr>store = db2, flashed = [(Msg ''Username already exists.'', ''error'')],
              reply = Render ''register.html'' No_context\<rparr>"
    unfolding register_def Let_def form_data_req3
    by (simp add: p user_by_username_def user_by_email_def db2_def flash_errors_def req3_def)
  show ?thesis
    using register_duplicate_spec [of req3 db2 "\<lambda>p. ''salted'' @ p" 500 None] p us ua tk val
      form_data_req3
    by simp
qed

section \<open>Reachable states\<close>

text \<open>
  The task views leave the accounts alone and \<open>register\<close> leaves the tasks alone.
  Hence every state the application can reach has parseable due dates and unique
  accounts, and \<open>index\<close> raises in none of them. A table edited from outside can
  hold a due date that does not parse; there \<open>index\<close> fails with \<open>ValueError\<close>.
\<close>

lemma register_keeps_tasks:
  "register h now req session d = Inr r \<Longrightarrow> tasks (store r) = tasks d"
  using register_store [of h now req session d] by auto

lemma add_task_keeps_users:
  "add_task now today req session d = Inr r \<Longrightarrow> users (store r) = users d"
  by (auto simp: add_task_def login_required_def add_task_body_def Let_def split_beta
      commit_task_insert_def split: if_splits sum.splits)

lemma edit_task_keeps_users:
  "edit_task today req task_id session d = Inr r \<Longrightarrow> users (store r) = users d"
  by (auto simp: edit_task_def login_required_def edit_task_body_def Let_def split_beta
      commit_task_update_def split: if_splits sum.splits)

lemma toggle_task_keeps_users:
  "toggle_task task_id session d = Inr r \<Longrightarrow> users (store r) = users d"
  by (auto simp: toggle_task_def login_required_def toggle_task_body_def Let_def
      commit_task_update_def split: if_splits sum.splits)

lemma delete_task_keeps_users:
  "delete_task task_id session d = Inr r \<Longrightarrow> users (store r) = users d"
  by (auto simp: delete_task_def login_required_def delete_task_body_def Let_def
      commit_task_delete_def split: if_splits sum.splits)

lemma reachable_invariants:
  "reachable d \<Longrightarrow> due_dates_parse (tasks d) \<and> unique_accounts d"
proof (induction rule: reachable.induct)
  case reachable_start
  show ?case by (simp add: due_dates_parse_def unique_accounts_def)
next
  case (reachable_register d h now req session r)
  then show ?case
    using register_keeps_tasks [of h now req session d r]
      register_unique_accounts [of d h now req session r]
    by simp
next
  case (reachable_add d now today req session r)
  then show ?case
    using add_task_due_dates_parse [of d now today req session r] add_task_keeps_users [of now today req session d r]
    by (simp add: unique_accounts_def)
next
  case (reachable_edit d today req task_id session r)
  then show ?case
    using edit_task_due_dates_parse [of d today req task_id session r] edit_task_keeps_users [of today req task_id session d r]
    by (simp add: unique_accounts_def)
next
  case (reachable_toggle d task_id session r)
  then show ?case
    using toggle_task_due_dates_parse [of d task_id session r] toggle_task_keeps_users [of task_id session d r]
    by (simp add: unique_accounts_def)
next
  case (reachable_delete d task_id session r)
  then show ?case
    using delete_task_due_dates_parse [of d task_id session r] delete_task_keeps_users [of task_id session d r]
    by (simp add: unique_accounts_def)
qed

lemma reachable_due_dates_parse:
  "reachable d \<Longrightarrow> due_dates_parse (filter P (tasks d))"
  using reachable_invariants [of d] by (simp add: due_dates_parse_def list_all_iff)

lemma index_malformed_due_date:
  "index today (Some (2, ''bob''))
     \<lparr>users = [], tasks = [(hd (tasks db1))\<lparr>t_due_date := Some ''tomorrow''\<rparr>]\<rparr>
   = Inl ValueError"
  by (simp add: index_def login_required_def index_body_def db1_def annotate_def)

end
